theory Spec2Isabelle
  imports Main "HOL-Library.Word" "HOL-Library.Sublist"
begin

unbundle bit_operations_syntax

section \<open>Data model of \<open>windows_availability.h\<close>\<close>

text \<open>
  \<open>DWORD\<close> is an unsigned 32-bit integer, so arithmetic wraps modulo \<open>2 ^ 32\<close> and the
  comparisons are unsigned. \<open>VersionTuple\<close> is \<open>std::tuple<DWORD, DWORD, DWORD>\<close>.
  A \<open>std::string_view\<close> is a list of characters; advancing the view (\<open>s = s.substr(1)\<close>)
  is dropping its head.
\<close>

type_synonym DWORD = "32 word"
type_synonym VersionTuple = "DWORD \<times> DWORD \<times> DWORD"

text \<open>
  What the header can raise: \<open>std::string_view::substr\<close> throws \<open>std::out_of_range\<close> when
  the position is beyond the size, and \<open>_loadSystemVersion\<close> asserts that the entry point
  \<open>RtlGetNtVersionNumbers\<close> was found.
\<close>

datatype error = OutOfRange | AssertionFailed

text \<open>
  The three process-wide statics \<open>majorVersion\<close>, \<open>minorVersion\<close>, \<open>buildVersion\<close>
  (lines 229-231), all initialised to 0.
\<close>

record sysver =
  majorVersion :: DWORD
  minorVersion :: DWORD
  buildVersion :: DWORD

definition initialVersion :: sysver where
  "initialVersion = \<lparr>majorVersion = 0, minorVersion = 0, buildVersion = 0\<rparr>"

section \<open>The \<open>detail\<close> namespace\<close>

text \<open>
  \<open>makeVersion(M, m, b)\<close> (lines 50-52) builds the tuple; called with no argument it is
  the "invalid" version, whose major is \<open>static_cast<DWORD>(-1)\<close>.
\<close>

definition makeVersion :: "DWORD \<Rightarrow> DWORD \<Rightarrow> DWORD \<Rightarrow> VersionTuple" where
  "makeVersion M m b = (M, m, b)"

definition makeVersion_default :: VersionTuple where
  "makeVersion_default = makeVersion (- 1) 0 0"

text \<open>
  \<open>s.compare(pos, n, t) == 0\<close>: the substring of \<open>s\<close> of at most \<open>n\<close> characters from
  \<open>pos\<close> equals \<open>t\<close>. Every call in the header has \<open>pos = 0\<close>, which never throws.
\<close>

definition compare_eq :: "string \<Rightarrow> nat \<Rightarrow> nat \<Rightarrow> string \<Rightarrow> bool" where
  "compare_eq s pos n t = (take n (drop pos s) = t)"

text \<open>\<open>checkPlatform\<close> (lines 58-62).\<close>

definition checkPlatform :: "string \<Rightarrow> bool" where
  "checkPlatform s = (compare_eq s 0 8 ''Windows '' \<or> compare_eq s 0 8 ''windows '')"

text \<open>
  The digit test of \<open>extractVersionNumber\<close> is \<open>c < '0' || c > '9'\<close> negated. A character
  is its byte \<open>of_char c\<close> in \<open>0..255\<close>; where \<open>char\<close> is signed the bytes from 128 are
  negative, hence below \<open>'0'\<close>, and here they are above \<open>'9'\<close>: not a digit either way.
  \<open>digit_of c\<close> is \<open>static_cast<DWORD>(c - '0')\<close>, used on digits only.
\<close>

definition is_digit :: "char \<Rightarrow> bool" where
  "is_digit c = (\<not> ((of_char c :: nat) < 48 \<or> (of_char c :: nat) > 57))"

definition digit_of :: "char \<Rightarrow> DWORD" where
  "digit_of c = of_nat ((of_char c :: nat) - 48)"

text \<open>
  The \<open>while\<close> loop of \<open>extractVersionNumber\<close> (lines 86-94): it stops at the end of the
  view or at the first character that is not a digit, which it leaves in the view.
\<close>

fun extract_loop :: "string \<Rightarrow> DWORD \<Rightarrow> string \<times> DWORD" where
  "extract_loop [] v = ([], v)"
| "extract_loop (c # cs) v =
     (if \<not> is_digit c then (c # cs, v) else extract_loop cs (v * 10 + digit_of c))"

text \<open>
  \<open>extractVersionNumber(s, v)\<close> (lines 76-96) takes the view and the number by reference;
  the model returns the result together with the new view and the new number. On an empty
  view nothing changes; a first character that is not a digit is consumed all the same and
  the number is left as it was.
\<close>

definition extractVersionNumber :: "string \<Rightarrow> DWORD \<Rightarrow> bool \<times> string \<times> DWORD" where
  "extractVersionNumber s v =
     (case s of
        [] \<Rightarrow> (False, s, v)
      | c # cs \<Rightarrow>
          if \<not> is_digit c then (False, cs, v)
          else (case extract_loop cs (digit_of c) of (s', v') \<Rightarrow> (True, s', v')))"

text \<open>
  The test before each of the two separators, negated:
  \<open>s.empty() || (s[0] != '.' && s[0] != '_' && s[0] != ' ')\<close> (lines 159 and 216).
\<close>

definition at_separator :: "string \<Rightarrow> bool" where
  "at_separator s =
     (case s of
        [] \<Rightarrow> False
      | c # _ \<Rightarrow> \<not> (c \<noteq> CHR ''.'' \<and> c \<noteq> CHR ''_'' \<and> c \<noteq> CHR '' ''))"

text \<open>
  \<open>parseWindowsVersion\<close> (lines 115-225) in the order of the source, one definition for
  each block of it.

  Lines 129-137: the alias names, then the requested major number. The result is
  \<open>(reqMajor, minor, s)\<close>, or \<open>None\<close> where the source returns \<open>makeVersion()\<close>.
  An alias leaves the view where it was.
\<close>

definition parseRequested :: "string \<Rightarrow> (DWORD \<times> DWORD \<times> string) option" where
  "parseRequested s =
     (if compare_eq s 0 5 ''Vista'' \<or> compare_eq s 0 5 ''vista'' then Some (6, 0, s)
      else if compare_eq s 0 2 ''XP'' \<or> compare_eq s 0 2 ''xp'' then Some (5, 1, s)
      else (case extractVersionNumber s 0 of
              (ok, s', reqMajor) \<Rightarrow> if \<not> ok then None else Some (reqMajor, 0, s')))"

text \<open>
  Lines 139-157: \<open>major = reqMajor\<close> and the three remappings, from \<open>reqMajor\<close> and the
  \<open>minor\<close> so far to \<open>(major, minor, build)\<close>; \<open>build\<close> is 0 before.
\<close>

definition remapMajor :: "DWORD \<Rightarrow> DWORD \<Rightarrow> DWORD \<times> DWORD \<times> DWORD" where
  "remapMajor reqMajor minor0 =
     (let major = reqMajor;
          (major, minor) = (if reqMajor = 7 then (6, 1) else (major, minor0));
          (major, minor) = (if reqMajor = 8 then (6, 2) else (major, minor));
          (major, build) = (if reqMajor = 11 then (10, 22000) else (major, 0))
      in (major, minor, build))"

text \<open>
  Lines 165-176: the named updates of Windows 10 and 11, \<open>Some build\<close> when one of the
  comparisons holds. The view is not advanced past the name.
\<close>

definition namedUpdate :: "DWORD \<Rightarrow> string \<Rightarrow> DWORD option" where
  "namedUpdate reqMajor s =
     (if reqMajor = 11 \<and> compare_eq s 0 4 ''22H2'' then Some 22621
      else if reqMajor = 11 \<and> compare_eq s 0 4 ''21H2'' then Some 22000
      else if reqMajor = 10 \<and> compare_eq s 0 4 ''22H2'' then Some 19045
      else if reqMajor = 10 \<and> compare_eq s 0 4 ''21H2'' then Some 19044
      else if reqMajor = 10 \<and> compare_eq s 0 4 ''21H1'' then Some 19043
      else if reqMajor = 10 \<and> compare_eq s 0 4 ''20H2'' then Some 19042
      else None)"

text \<open>
  Lines 181-214: Windows 8.1, then the minor number of Windows 10 and 11 taken as the
  build number; from \<open>reqMajor\<close>, \<open>major\<close>, \<open>minor\<close>, \<open>build\<close> to \<open>(minor, build)\<close>.
\<close>

definition remapMinor :: "DWORD \<Rightarrow> DWORD \<Rightarrow> DWORD \<Rightarrow> DWORD \<Rightarrow> DWORD \<times> DWORD" where
  "remapMinor reqMajor major minor0 build =
     (let minor = (if reqMajor = 8 \<and> minor0 = 1 then 3 else minor0)
      in if major = 10 \<and> minor > 0 then
           (0,
            if reqMajor = 10 \<and> minor = 2004 then 19041
            else if reqMajor = 10 \<and> minor = 1909 then 18363
            else if reqMajor = 10 \<and> minor = 1903 then 18362
            else if reqMajor = 10 \<and> minor = 1809 then 17763
            else if reqMajor = 10 \<and> minor = 1803 then 17134
            else if reqMajor = 10 \<and> minor = 1709 then 16299
            else if reqMajor = 10 \<and> minor = 1703 then 15063
            else if reqMajor = 10 \<and> minor = 1607 then 14393
            else if reqMajor = 10 \<and> minor = 1511 then 10586
            else if reqMajor = 10 \<and> minor = 1507 then 10240
            else minor)
         else (minor, build))"

text \<open>
  Lines 216-224: the second separator and the build number. A failed extraction leaves
  \<open>build\<close> as it was, and both ways return the same tuple.
\<close>

definition parseBuild :: "string \<Rightarrow> DWORD \<Rightarrow> DWORD \<Rightarrow> DWORD \<Rightarrow> VersionTuple" where
  "parseBuild s major minor build =
     (if \<not> at_separator s then makeVersion major minor build
      else (case extractVersionNumber (drop 1 s) build of
              (ok, s', build') \<Rightarrow>
                if \<not> ok then makeVersion major minor build'
                else makeVersion major minor build'))"

text \<open>
  Lines 162-179 and the rest, after the first separator was seen: the named update or
  the minor number, then the remapping and the build number.
\<close>

definition parseUpdate :: "DWORD \<Rightarrow> string \<Rightarrow> DWORD \<Rightarrow> DWORD \<Rightarrow> DWORD \<Rightarrow> VersionTuple" where
  "parseUpdate reqMajor s major minor build =
     (case namedUpdate reqMajor s of
        Some build' \<Rightarrow>
          (case remapMinor reqMajor major minor build' of
             (minor', build'') \<Rightarrow> parseBuild s major minor' build'')
      | None \<Rightarrow>
          (case extractVersionNumber s minor of
             (ok, s', minor') \<Rightarrow>
               if \<not> ok then makeVersion major minor' build
               else (case remapMinor reqMajor major minor' build of
                       (minor'', build') \<Rightarrow> parseBuild s' major minor'' build')))"

text \<open>
  The whole function. \<open>s.substr(8)\<close> throws on a view shorter than 8 characters; it does
  not look at what the 8 characters are.
\<close>

definition parseWindowsVersion :: "string \<Rightarrow> error + VersionTuple" where
  "parseWindowsVersion s0 =
     (if 8 > length s0 then Inl OutOfRange
      else
        (let s = drop 8 s0 in
         case parseRequested s of
           None \<Rightarrow> Inr makeVersion_default
         | Some (reqMajor, minor0, s') \<Rightarrow>
             (case remapMajor reqMajor minor0 of
                (major, minor, build) \<Rightarrow>
                  if \<not> at_separator s' then Inr (makeVersion major minor build)
                  else Inr (parseUpdate reqMajor (drop 1 s') major minor build))))"

section \<open>The runtime comparison\<close>

text \<open>
  \<open>operator<\<close> and \<open>operator<=\<close> of \<open>std::tuple\<close>, as the C++ standard library defines
  them: \<open>t < u\<close> is \<open>get<0>(t) < get<0>(u) || (!(get<0>(u) < get<0>(t)) && ttail < utail)\<close>
  with the empty tails not less, and \<open>t <= u\<close> is \<open>!(u < t)\<close>. The components compare as
  unsigned 32-bit numbers.
\<close>

definition tuple_less :: "VersionTuple \<Rightarrow> VersionTuple \<Rightarrow> bool" where
  "tuple_less t u =
     (case t of (t0, t1, t2) \<Rightarrow> case u of (u0, u1, u2) \<Rightarrow>
        t0 < u0 \<or> (\<not> u0 < t0 \<and> (t1 < u1 \<or> (\<not> u1 < t1 \<and> (t2 < u2 \<or> (\<not> u2 < t2 \<and> False))))))"

definition tuple_le :: "VersionTuple \<Rightarrow> VersionTuple \<Rightarrow> bool" where
  "tuple_le t u = (\<not> tuple_less u t)"

text \<open>\<open>std::tie(majorVersion, minorVersion, buildVersion)\<close>.\<close>

definition tie :: "sysver \<Rightarrow> VersionTuple" where
  "tie st = (majorVersion st, minorVersion st, buildVersion st)"

text \<open>
  \<open>_loadSystemVersion\<close> (lines 236-246). The entry point \<open>RtlGetNtVersionNumbers\<close> of the
  operating system is a parameter: \<open>None\<close> when it was not found, which the assertion
  refuses, and otherwise the three numbers it writes.
\<close>

definition loadSystemVersion :: "(DWORD \<times> DWORD \<times> DWORD) option \<Rightarrow> sysver \<Rightarrow> error + sysver" where
  "loadSystemVersion os st =
     (case os of
        None \<Rightarrow> Inl AssertionFailed
      | Some (M, m, b) \<Rightarrow>
          Inr \<lparr>majorVersion = M, minorVersion = m, buildVersion = b AND 0x0FFFFFFF\<rparr>)"

text \<open>
  \<open>_isVersionAtLeast\<close> (lines 253-258): the answer and the statics after the call.
  A name cannot begin with an underscore here, so the leading underscores of
  \<open>_loadSystemVersion\<close>, \<open>_isVersionAtLeast\<close> and \<open>___windows_available_check\<close> are
  left out.
\<close>

definition isVersionAtLeast ::
  "(DWORD \<times> DWORD \<times> DWORD) option \<Rightarrow> sysver \<Rightarrow> VersionTuple \<Rightarrow> error + (bool \<times> sysver)" where
  "isVersionAtLeast os st version =
     (case (if majorVersion st = 0 then loadSystemVersion os st else Inr st) of
        Inl e \<Rightarrow> Inl e
      | Inr st' \<Rightarrow> Inr (tuple_le version (tie st'), st'))"

text \<open>
  The macro \<open>___windows_available_check(x)\<close> (lines 261-266).
\<close>

definition windows_available_check ::
  "(DWORD \<times> DWORD \<times> DWORD) option \<Rightarrow> sysver \<Rightarrow> string \<Rightarrow> error + (bool \<times> sysver)" where
  "windows_available_check os st x =
     (if checkPlatform x then
        (case parseWindowsVersion x of
           Inl e \<Rightarrow> Inl e
         | Inr version \<Rightarrow> isVersionAtLeast os st version)
      else Inr (False, st))"

section \<open>Notions of the specification\<close>

text \<open>
  The definitions of this section follow the words of the specification, not the code;
  the theorems compare the code with them.

  A decimal digit, the unsigned decimal value of a run of digits as a natural number
  (without wrap-around), and the three accepted separators.
\<close>

definition decimal_digit :: "char \<Rightarrow> bool" where
  "decimal_digit c = (c \<in> set ''0123456789'')"

definition decimal_value :: "string \<Rightarrow> nat" where
  "decimal_value ds = foldl (\<lambda>a c. a * 10 + ((of_char c :: nat) - 48)) 0 ds"

definition separator :: "char \<Rightarrow> bool" where
  "separator c = (c \<in> set ''._ '')"

text \<open>
  The lexicographic order on triples \<open>(major, minor, build)\<close> of natural numbers, and
  a version tuple read as such a triple.
\<close>

definition lex_less :: "nat \<times> nat \<times> nat \<Rightarrow> nat \<times> nat \<times> nat \<Rightarrow> bool" where
  "lex_less a b =
     (case a of (a0, a1, a2) \<Rightarrow> case b of (b0, b1, b2) \<Rightarrow>
        a0 < b0 \<or> (a0 = b0 \<and> (a1 < b1 \<or> (a1 = b1 \<and> a2 < b2))))"

definition lex_le :: "nat \<times> nat \<times> nat \<Rightarrow> nat \<times> nat \<times> nat \<Rightarrow> bool" where
  "lex_le a b = (lex_less a b \<or> a = b)"

definition triple :: "VersionTuple \<Rightarrow> nat \<times> nat \<times> nat" where
  "triple t = (case t of (M, m, b) \<Rightarrow> (unat M, unat m, unat b))"

text \<open>
  Two strings that differ in the case of their ASCII letters only: one is a
  capitalization of the other.
\<close>

definition lower_char :: "char \<Rightarrow> char" where
  "lower_char c =
     (case map_of (zip ''ABCDEFGHIJKLMNOPQRSTUVWXYZ'' ''abcdefghijklmnopqrstuvwxyz'') c of
        Some l \<Rightarrow> l
      | None \<Rightarrow> c)"

definition same_ignoring_case :: "string \<Rightarrow> string \<Rightarrow> bool" where
  "same_ignoring_case a b = (map lower_char a = map lower_char b)"

text \<open>
  The update field of a version string: what follows the first separator, up to the next
  separator or the end. The named feature-update codes with their build numbers, for a
  requested major number.
\<close>

definition update_field :: "string \<Rightarrow> string" where
  "update_field s = takeWhile (\<lambda>c. \<not> separator c) s"

definition named_codes :: "DWORD \<Rightarrow> (string \<times> DWORD) list" where
  "named_codes reqMajor =
     (if reqMajor = 11 then [(''22H2'', 22621), (''21H2'', 22000)]
      else if reqMajor = 10 then
        [(''22H2'', 19045), (''21H2'', 19044), (''21H1'', 19043), (''20H2'', 19042)]
      else [])"

text \<open>
  The result of the parser in the terms of section 4.3 of the specification, on the text
  after the 8 characters of the prefix; the theorems prove that the code computes it.
  Where the specification gives no number (the build numbers of step 6) or speaks of
  Windows 10 only (a minor of Windows 11 is a build number as well), the description
  follows the code, and says so. A text begins with a digit or not; its leading number is
  the value of its leading run of digits modulo \<open>2 ^ 32\<close>; a text is all digits
  when it is not empty and has nothing else.
\<close>

definition begins_with_digit :: "string \<Rightarrow> bool" where
  "begins_with_digit s = (case s of [] \<Rightarrow> False | c # _ \<Rightarrow> decimal_digit c)"

definition leading_number :: "string \<Rightarrow> DWORD" where
  "leading_number s = of_nat (decimal_value (takeWhile decimal_digit s))"

definition all_digits :: "string \<Rightarrow> bool" where
  "all_digits s = (s \<noteq> [] \<and> list_all decimal_digit s)"

text \<open>
  Step 3, the requested major number through the public numbering: 7 is 6.1, 8 is 6.2,
  11 is major 10 with the build floor 22000, any other number is itself.
\<close>

definition major_table :: "DWORD \<Rightarrow> VersionTuple" where
  "major_table n =
     (if n = 7 then (6, 1, 0)
      else if n = 8 then (6, 2, 0)
      else if n = 11 then (10, 0, 22000)
      else (n, 0, 0))"

text \<open>
  Step 6, the feature updates of Windows 10 written as four-digit numbers, with their
  build numbers (the specification names the numbers, the build numbers are those of
  lines 190-209); the minor 1 of Windows 8 is 3; for Windows 10 a minor in the table is
  its build number and any other minor is the build number itself, and so is every minor
  for Windows 11 (line 187 tests the internal major, which is 10 for both).
\<close>

definition feature_builds :: "(DWORD \<times> DWORD) list" where
  "feature_builds =
     [(2004, 19041), (1909, 18363), (1903, 18362), (1809, 17763), (1803, 17134),
      (1709, 16299), (1703, 15063), (1607, 14393), (1511, 10586), (1507, 10240)]"

definition minor_remap :: "DWORD \<Rightarrow> DWORD \<Rightarrow> DWORD" where
  "minor_remap n v = (if n = 8 \<and> v = 1 then 3 else v)"

definition build_alias :: "DWORD \<Rightarrow> DWORD \<Rightarrow> DWORD" where
  "build_alias n v =
     (if n = 10 then (case map_of feature_builds v of Some x \<Rightarrow> x | None \<Rightarrow> v) else v)"

text \<open>
  Step 7, the build field: after one more separator a number replaces the build, and
  anything else leaves it.
\<close>

definition final_build :: "string \<Rightarrow> DWORD \<Rightarrow> DWORD" where
  "final_build rest build =
     (case rest of
        [] \<Rightarrow> build
      | c # t \<Rightarrow> if separator c \<and> begins_with_digit t then leading_number t else build)"

text \<open>
  Steps 5 to 7 when no named code matches, from the requested major \<open>n\<close> and the text
  after the first separator: without a leading number the triple of step 3, and with one
  the remapped minor or build and then the build field.
\<close>

definition numeric_fields :: "DWORD \<Rightarrow> VersionTuple \<Rightarrow> DWORD \<Rightarrow> string \<Rightarrow> VersionTuple" where
  "numeric_fields n t v rest =
     (case t of
        (M, m, b) \<Rightarrow>
          if M = 10 \<and> minor_remap n v \<noteq> 0
          then (M, 0, final_build rest (build_alias n (minor_remap n v)))
          else (M, minor_remap n v, final_build rest b))"

definition numeric_update :: "DWORD \<Rightarrow> string \<Rightarrow> VersionTuple" where
  "numeric_update n s =
     (if \<not> begins_with_digit s then major_table n
      else numeric_fields n (major_table n) (leading_number s) (dropWhile decimal_digit s))"

text \<open>
  Step 5 as a whole: a named code at the start of the text gives its build number, and
  else the numeric fields.
\<close>

definition qualifier_parse :: "DWORD \<Rightarrow> string \<Rightarrow> VersionTuple" where
  "qualifier_parse n s =
     (case map_of (named_codes n) (take 4 s) of
        Some b \<Rightarrow> (10, 0, b)
      | None \<Rightarrow> numeric_update n s)"

text \<open>
  The build of a triple, a triple with another build, and "at most" on two results of the
  parser: both are triples and the first is at most the second in the lexicographic order.
\<close>

definition build_of :: "VersionTuple \<Rightarrow> DWORD" where
  "build_of t = snd (snd t)"

definition with_build :: "VersionTuple \<Rightarrow> DWORD \<Rightarrow> VersionTuple" where
  "with_build t b = (fst t, fst (snd t), b)"

definition weaker :: "error + VersionTuple \<Rightarrow> error + VersionTuple \<Rightarrow> bool" where
  "weaker x y =
     (case x of
        Inl _ \<Rightarrow> False
      | Inr a \<Rightarrow> (case y of Inl _ \<Rightarrow> False | Inr b \<Rightarrow> lex_le (triple a) (triple b)))"

text \<open>
  A version string that ends right after a numeric qualifier: a number, one separator and
  a text that is all digits, which is its minor field.
\<close>

definition minor_field :: "string \<Rightarrow> string" where
  "minor_field body = drop 1 (dropWhile decimal_digit body)"

definition ends_after_minor :: "string \<Rightarrow> bool" where
  "ends_after_minor body =
     (begins_with_digit body \<and>
      (case dropWhile decimal_digit body of
         [] \<Rightarrow> False
       | c # f \<Rightarrow> separator c \<and> all_digits f))"

section \<open>The integer extraction\<close>

lemmas parse_defs =
  parseWindowsVersion_def parseRequested_def remapMajor_def namedUpdate_def remapMinor_def
  parseBuild_def parseUpdate_def extractVersionNumber_def at_separator_def compare_eq_def
  is_digit_def digit_of_def makeVersion_def makeVersion_default_def

lemma is_digit_iff: "is_digit c \<longleftrightarrow> decimal_digit c"
proof
  assume "is_digit c"
  then have "(of_char c :: nat) \<in> of_char ` set ''0123456789''"
    unfolding is_digit_def by simp arith
  then show "decimal_digit c"
    unfolding decimal_digit_def by (simp only: inj_image_mem_iff [OF inj_of_char])
next
  assume "decimal_digit c"
  then show "is_digit c"
    by (auto simp: decimal_digit_def is_digit_def)
qed

lemma is_digit_eq: "is_digit = decimal_digit"
  by (rule ext) (rule is_digit_iff)

text \<open>The loop consumes the longest run of digits and accumulates it from the left.\<close>

lemma extract_loop_eq:
  "extract_loop s v =
     (dropWhile is_digit s, foldl (\<lambda>a c. a * 10 + digit_of c) v (takeWhile is_digit s))"
  by (induction s arbitrary: v) simp_all

text \<open>The accumulation in 32 bits is the accumulation in the naturals, reduced.\<close>

lemma of_nat_foldl_digits:
  "(of_nat (foldl (\<lambda>a c. a * 10 + ((of_char c :: nat) - 48)) n ds) :: DWORD) =
     foldl (\<lambda>a c. a * 10 + digit_of c) (of_nat n) ds"
  by (induction ds arbitrary: n) (simp_all add: digit_of_def)

lemma extractVersionNumber_digit:
  assumes "s \<noteq> []" and "is_digit (hd s)"
  shows "extractVersionNumber s v =
           (True, dropWhile is_digit s, of_nat (decimal_value (takeWhile is_digit s)))"
proof -
  from assms obtain c cs where s: "s = c # cs" and c: "is_digit c"
    by (cases s) auto
  have "(of_nat (decimal_value (c # takeWhile is_digit cs)) :: DWORD) =
          foldl (\<lambda>a c. a * 10 + digit_of c) (digit_of c) (takeWhile is_digit cs)"
    unfolding decimal_value_def
    by (simp add: of_nat_foldl_digits) (simp add: digit_of_def)
  with s c show ?thesis
    by (simp add: extractVersionNumber_def extract_loop_eq)
qed

lemma extractVersionNumber_fail:
  "s = [] \<or> \<not> is_digit (hd s) \<Longrightarrow> fst (extractVersionNumber s v) = False"
  by (cases s) (auto simp: extractVersionNumber_def)

text \<open>
  C9. On a view that begins with a decimal digit, \<open>extractVersionNumber\<close> returns true,
  the number is the decimal value of the longest leading run of digits modulo \<open>2 ^ 32\<close>
  (the accumulation \<open>v * 10 + digit\<close> in 32-bit unsigned arithmetic), and the view is left
  right after that run. On an empty view, or one whose first character is not a decimal
  digit, it returns false.
\<close>

theorem extractVersionNumber_decimal:
  "(s \<noteq> [] \<and> decimal_digit (hd s) \<longrightarrow>
      extractVersionNumber s v =
        (True, dropWhile decimal_digit s, of_nat (decimal_value (takeWhile decimal_digit s)))
      \<and> unat (snd (snd (extractVersionNumber s v))) =
          decimal_value (takeWhile decimal_digit s) mod 2 ^ 32)
   \<and> (s = [] \<or> \<not> decimal_digit (hd s) \<longrightarrow> fst (extractVersionNumber s v) = False)"
  using extractVersionNumber_digit [of s v] extractVersionNumber_fail [of s v]
  by (auto simp: is_digit_eq unat_of_nat)

theorem extractVersionNumber_decimal_witness:
  "(''4294967338H2'' \<noteq> [] \<and> decimal_digit (hd ''4294967338H2'')
      \<and> extractVersionNumber ''4294967338H2'' 7 = (True, ''H2'', 42)
      \<and> decimal_value ''4294967338'' mod 2 ^ 32 = 42)
   \<and> (\<not> decimal_digit (hd ''H2'') \<and> fst (extractVersionNumber ''H2'' 7) = False)
   \<and> fst (extractVersionNumber [] 7) = False"
  using extractVersionNumber_decimal [of "''4294967338H2''" 7]
    extractVersionNumber_decimal [of "''H2''" 7]
    extractVersionNumber_decimal [of "[]" 7]
  by (simp add: decimal_digit_def decimal_value_def)

section \<open>The parser on the reference strings\<close>

text \<open>
  C1. The parser on the reference examples of the specification: "Windows 7",
  "Windows 8.1", "Windows 11 21H2", "Windows 11 22H2", "Windows 10 2004", "Windows XP"
  and "Windows Vista" give (6,1,0), (6,3,0), (10,0,22000), (10,0,22621), (10,0,19041),
  (5,1,0) and (6,0,0).
\<close>

theorem parseWindowsVersion_reference_examples:
  "parseWindowsVersion ''Windows 7'' = Inr (6, 1, 0)
   \<and> parseWindowsVersion ''Windows 8.1'' = Inr (6, 3, 0)
   \<and> parseWindowsVersion ''Windows 11 21H2'' = Inr (10, 0, 22000)
   \<and> parseWindowsVersion ''Windows 11 22H2'' = Inr (10, 0, 22621)
   \<and> parseWindowsVersion ''Windows 10 2004'' = Inr (10, 0, 19041)
   \<and> parseWindowsVersion ''Windows XP'' = Inr (5, 1, 0)
   \<and> parseWindowsVersion ''Windows Vista'' = Inr (6, 0, 0)"
proof (intro conjI)
  show "parseWindowsVersion ''Windows 7'' = Inr (6, 1, 0)"
    by (simp add: parse_defs)
  show "parseWindowsVersion ''Windows 8.1'' = Inr (6, 3, 0)"
    by (simp add: parse_defs)
  show "parseWindowsVersion ''Windows 11 21H2'' = Inr (10, 0, 22000)"
    by (simp add: parse_defs)
  show "parseWindowsVersion ''Windows 11 22H2'' = Inr (10, 0, 22621)"
    by (simp add: parse_defs)
  show "parseWindowsVersion ''Windows 10 2004'' = Inr (10, 0, 19041)"
    by (simp add: parse_defs)
  show "parseWindowsVersion ''Windows XP'' = Inr (5, 1, 0)"
    by (simp add: parse_defs)
  show "parseWindowsVersion ''Windows Vista'' = Inr (6, 0, 0)"
    by (simp add: parse_defs)
qed

section \<open>The platform test and the comparison\<close>

lemma take_eq_prefix: "n = length p \<Longrightarrow> take n s = p \<longleftrightarrow> prefix p s"
  by (metis append_eq_conv_conj prefix_def)

lemma checkPlatform_prefix:
  "checkPlatform x \<longleftrightarrow> prefix ''Windows '' x \<or> prefix ''windows '' x"
  unfolding checkPlatform_def compare_eq_def
  by (simp add: take_eq_prefix)

lemma checkPlatform_length: "checkPlatform x \<Longrightarrow> 8 \<le> length x"
  by (auto simp: checkPlatform_prefix prefix_def)

text \<open>
  After \<open>checkPlatform\<close> the view has its 8 characters, so \<open>substr(8)\<close> does not throw
  and the parser returns a tuple.
\<close>

lemma parseWindowsVersion_returns:
  "8 \<le> length x \<Longrightarrow> \<not> isl (parseWindowsVersion x)"
  unfolding parseWindowsVersion_def
  by (simp add: Let_def split: option.split prod.split)

lemma checkPlatform_parse_returns: "checkPlatform x \<Longrightarrow> \<not> isl (parseWindowsVersion x)"
  by (rule parseWindowsVersion_returns) (rule checkPlatform_length)

text \<open>
  The comparison of \<open>std::tuple\<close> on unsigned components is the lexicographic order of
  the specification.
\<close>

lemma tuple_le_lex: "tuple_le t u \<longleftrightarrow> lex_le (triple t) (triple u)"
  by (cases t; cases u)
    (auto simp: tuple_le_def tuple_less_def lex_le_def lex_less_def triple_def
       word_less_nat_alt word_unat_eq_iff)

lemma tuple_less_lex: "tuple_less t u \<longleftrightarrow> lex_less (triple t) (triple u)"
  by (cases t; cases u)
    (auto simp: tuple_less_def lex_less_def triple_def word_less_nat_alt word_unat_eq_iff)

lemma lex_le_refl: "lex_le a a"
  by (simp add: lex_le_def)

lemma lex_less_not_le: "lex_less a b \<Longrightarrow> \<not> lex_le b a"
  by (cases a; cases b) (auto simp: lex_le_def lex_less_def)

text \<open>Masking with \<open>0x0FFFFFFF\<close> clears the top 4 of the 32 bits.\<close>

lemma mask_top4: "unat (b AND (0x0FFFFFFF :: DWORD)) = unat b mod 2 ^ 28"
proof -
  have "b AND 0x0FFFFFFF = take_bit 28 b"
    by (simp add: take_bit_eq_mask mask_eq_exp_minus_1)
  then show ?thesis
    by (simp add: take_bit_eq_mod unat_mod_distrib)
qed

text \<open>
  The three ways to look at a call of \<open>_isVersionAtLeast\<close>: the statics are loaded
  already, they are loaded by this call, and whatever the statics are after one call they
  are after any other call from the same state.
\<close>

lemma isVersionAtLeast_loaded:
  "majorVersion st \<noteq> 0 \<Longrightarrow> isVersionAtLeast os st v = Inr (tuple_le v (tie st), st)"
  by (simp add: isVersionAtLeast_def)

lemma isVersionAtLeast_first:
  "majorVersion st = 0 \<Longrightarrow>
   isVersionAtLeast (Some (M, m, b)) st v =
     Inr (tuple_le v (M, m, b AND 0x0FFFFFFF),
          \<lparr>majorVersion = M, minorVersion = m, buildVersion = b AND 0x0FFFFFFF\<rparr>)"
  by (simp add: isVersionAtLeast_def loadSystemVersion_def tie_def)

lemma isVersionAtLeast_result:
  "isVersionAtLeast os st v = Inr (r, st') \<Longrightarrow>
   isVersionAtLeast os st w = Inr (tuple_le w (tie st'), st')"
  by (auto simp: isVersionAtLeast_def split: sum.splits if_splits)

text \<open>A later call, from the statics that a call left, finds the same live version.\<close>

lemma isVersionAtLeast_again:
  "isVersionAtLeast os st v = Inr (r, st') \<Longrightarrow>
   isVersionAtLeast os st' w = Inr (tuple_le w (tie st'), st')"
  by (auto simp: isVersionAtLeast_def loadSystemVersion_def
      split: sum.splits if_splits option.splits)

text \<open>
  C5. \<open>checkPlatform\<close> is true exactly on the strings that begin with one of the two
  accepted 8-character prefixes "Windows " and "windows ", and on every string where it is
  false the availability check returns false, whatever the statics and the operating
  system's answer are (neither is looked at).
\<close>

theorem checkPlatform_gate:
  "(checkPlatform x \<longleftrightarrow> prefix ''Windows '' x \<or> prefix ''windows '' x)
   \<and> length ''Windows '' = 8 \<and> length ''windows '' = 8
   \<and> (\<not> checkPlatform x \<longrightarrow> windows_available_check os st x = Inr (False, st))"
  by (simp add: checkPlatform_prefix windows_available_check_def)

text \<open>The check on a string of another platform, and the lower-case prefix.\<close>

theorem checkPlatform_gate_witness:
  "\<not> checkPlatform ''macOS 10.15''
   \<and> windows_available_check (Some (10, 0, 19045)) initialVersion ''macOS 10.15''
       = Inr (False, initialVersion)
   \<and> checkPlatform ''windows 10'' \<and> prefix ''windows '' ''windows 10''"
  using checkPlatform_gate [of "''macOS 10.15''" "Some (10, 0, 19045)" initialVersion]
    checkPlatform_gate [of "''windows 10''" None initialVersion]
  by simp

text \<open>
  C2. "Windows " with nothing after it parses to the invalid version
  \<open>(0xFFFFFFFF, 0, 0)\<close>, whose major is the largest \<open>DWORD\<close>; and against a live version
  whose major is less than that, \<open>_isVersionAtLeast\<close> of the invalid version returns
  false, both when the statics hold the live version already and when this call loads it.
\<close>

theorem invalid_version_never_satisfied:
  "parseWindowsVersion ''Windows '' = Inr (0xFFFFFFFF, 0, 0)
   \<and> makeVersion_default = (0xFFFFFFFF, 0, 0)
   \<and> (\<forall>x :: DWORD. x \<le> 0xFFFFFFFF)
   \<and> (majorVersion st \<noteq> 0 \<and> majorVersion st < 0xFFFFFFFF \<longrightarrow>
        isVersionAtLeast os st (0xFFFFFFFF, 0, 0) = Inr (False, st))
   \<and> (majorVersion st = 0 \<and> M < 0xFFFFFFFF \<longrightarrow>
        isVersionAtLeast (Some (M, m, b)) st (0xFFFFFFFF, 0, 0) =
          Inr (False, \<lparr>majorVersion = M, minorVersion = m, buildVersion = b AND 0x0FFFFFFF\<rparr>))"
proof (intro conjI impI)
  show "parseWindowsVersion ''Windows '' = Inr (0xFFFFFFFF, 0, 0)"
    by (simp add: parse_defs)
  show "makeVersion_default = (0xFFFFFFFF, 0, 0)"
    by (simp add: makeVersion_default_def makeVersion_def)
  show "\<forall>x :: DWORD. x \<le> 0xFFFFFFFF"
  proof
    fix x :: DWORD
    have e: "(0xFFFFFFFF :: DWORD) = - 1" by simp
    show "x \<le> 0xFFFFFFFF" unfolding e by simp
  qed
next
  assume "majorVersion st \<noteq> 0 \<and> majorVersion st < 0xFFFFFFFF"
  then show "isVersionAtLeast os st (0xFFFFFFFF, 0, 0) = Inr (False, st)"
    by (simp add: isVersionAtLeast_loaded tuple_le_def tuple_less_def tie_def)
next
  assume "majorVersion st = 0 \<and> M < 0xFFFFFFFF"
  then show "isVersionAtLeast (Some (M, m, b)) st (0xFFFFFFFF, 0, 0) =
          Inr (False, \<lparr>majorVersion = M, minorVersion = m, buildVersion = b AND 0x0FFFFFFF\<rparr>)"
    by (simp add: isVersionAtLeast_first tuple_le_def tuple_less_def)
qed

text \<open>
  A loaded Windows 10 and a first call where the system reports the largest major below
  the invalid one.
\<close>

theorem invalid_version_never_satisfied_witness:
  "(10 :: DWORD) \<noteq> 0 \<and> (10 :: DWORD) < 0xFFFFFFFF
   \<and> majorVersion initialVersion = 0 \<and> (4294967294 :: DWORD) < 0xFFFFFFFF
   \<and> isVersionAtLeast None \<lparr>majorVersion = 10, minorVersion = 0, buildVersion = 19045\<rparr>
       (0xFFFFFFFF, 0, 0)
     = Inr (False, \<lparr>majorVersion = 10, minorVersion = 0, buildVersion = 19045\<rparr>)
   \<and> isVersionAtLeast (Some (4294967294, 4294967295, 4294967295)) initialVersion
       (0xFFFFFFFF, 0, 0)
     = Inr (False, \<lparr>majorVersion = 4294967294, minorVersion = 4294967295,
                    buildVersion = 268435455\<rparr>)"
  using invalid_version_never_satisfied
      [of "\<lparr>majorVersion = 10, minorVersion = 0, buildVersion = 19045\<rparr>" None,
        THEN conjunct2, THEN conjunct2, THEN conjunct2]
    invalid_version_never_satisfied [of initialVersion _ 4294967294 4294967295 4294967295,
        THEN conjunct2, THEN conjunct2, THEN conjunct2]
  by (simp add: initialVersion_def)

text \<open>
  C3. The first call of \<open>_isVersionAtLeast\<close>, on the initial statics, stores what the
  operating system reports with the top 4 bits of the build number cleared (the build
  modulo \<open>2 ^ 28\<close>); and every call returns true exactly when the requested triple is at
  most the stored live triple in the lexicographic order on (major, minor, build).
\<close>

theorem isVersionAtLeast_lazy_load_and_order:
  "isVersionAtLeast (Some (M, m, b)) initialVersion v =
      Inr (lex_le (triple v) (unat M, unat m, unat b mod 2 ^ 28),
           \<lparr>majorVersion = M, minorVersion = m, buildVersion = b AND 0x0FFFFFFF\<rparr>)
   \<and> unat (b AND (0x0FFFFFFF :: DWORD)) = unat b mod 2 ^ 28
   \<and> (majorVersion st \<noteq> 0 \<longrightarrow>
        isVersionAtLeast os st v = Inr (lex_le (triple v) (triple (tie st)), st))
   \<and> (\<forall>r st'. isVersionAtLeast os st v = Inr (r, st') \<longrightarrow>
        (r \<longleftrightarrow> lex_le (triple v) (triple (tie st'))))"
proof (intro conjI impI allI)
  have "triple (M, m, b AND 0x0FFFFFFF) = (unat M, unat m, unat b mod 2 ^ 28)"
    by (simp only: triple_def prod.case mask_top4)
  then show "isVersionAtLeast (Some (M, m, b)) initialVersion v =
      Inr (lex_le (triple v) (unat M, unat m, unat b mod 2 ^ 28),
           \<lparr>majorVersion = M, minorVersion = m, buildVersion = b AND 0x0FFFFFFF\<rparr>)"
    by (simp add: isVersionAtLeast_first initialVersion_def tuple_le_lex)
  show "unat (b AND (0x0FFFFFFF :: DWORD)) = unat b mod 2 ^ 28"
    by (rule mask_top4)
next
  assume "majorVersion st \<noteq> 0"
  then show "isVersionAtLeast os st v = Inr (lex_le (triple v) (triple (tie st)), st)"
    by (simp add: isVersionAtLeast_loaded tuple_le_lex)
next
  fix r st'
  assume "isVersionAtLeast os st v = Inr (r, st')"
  with isVersionAtLeast_result [OF this, of v]
  show "r \<longleftrightarrow> lex_le (triple v) (triple (tie st'))"
    by (simp add: tuple_le_lex)
qed

text \<open>
  A loaded Windows 10 build 19045 satisfies 10.0.19041, and a first call on a system that
  reports build \<open>0xF0004A65\<close> stores 19045 and refuses 10.0.22000.
\<close>

theorem isVersionAtLeast_lazy_load_and_order_witness:
  "isVersionAtLeast None \<lparr>majorVersion = 10, minorVersion = 0, buildVersion = 19045\<rparr>
       (10, 0, 19041)
     = Inr (True, \<lparr>majorVersion = 10, minorVersion = 0, buildVersion = 19045\<rparr>)
   \<and> isVersionAtLeast (Some (10, 0, 0xF0004A65)) initialVersion (10, 0, 22000)
     = Inr (False, \<lparr>majorVersion = 10, minorVersion = 0, buildVersion = 19045\<rparr>)"
  using isVersionAtLeast_lazy_load_and_order
      [of 10 0 "0xF0004A65" "(10, 0, 22000)" initialVersion None]
    isVersionAtLeast_lazy_load_and_order
      [of 10 0 0 "(10, 0, 19041)"
          "\<lparr>majorVersion = 10, minorVersion = 0, buildVersion = 19045\<rparr>" None]
  by (simp add: lex_le_def lex_less_def triple_def tie_def)

text \<open>
  C4. If the triple \<open>A\<close> is less than \<open>B\<close> in the lexicographic order and the live
  triple, the statics after a call, is \<open>A\<close>, then \<open>_isVersionAtLeast(B)\<close> returns false
  and \<open>_isVersionAtLeast(A)\<close> returns true, as that call and as any later one.
\<close>

theorem isVersionAtLeast_monotone:
  assumes "lex_less (triple A) (triple B)"
    and "isVersionAtLeast os st v = Inr (r, st')"
    and "tie st' = A"
  shows "isVersionAtLeast os st B = Inr (False, st')
         \<and> isVersionAtLeast os st A = Inr (True, st')
         \<and> isVersionAtLeast os st' B = Inr (False, st')
         \<and> isVersionAtLeast os st' A = Inr (True, st')"
proof -
  have "\<not> tuple_le B A"
    using assms(1) by (simp add: tuple_le_lex lex_less_not_le)
  moreover have "tuple_le A A"
    by (simp add: tuple_le_lex lex_le_refl)
  ultimately show ?thesis
    using isVersionAtLeast_result [OF assms(2)] isVersionAtLeast_again [OF assms(2)] assms(3)
    by simp
qed

text \<open>The live version 10.0.19045 against itself and against 10.0.22000.\<close>

theorem isVersionAtLeast_monotone_witness:
  "lex_less (triple (10, 0, 19045)) (triple (10, 0, 22000))
   \<and> isVersionAtLeast (Some (10, 0, 0xF0004A65)) initialVersion (6, 1, 0)
       = Inr (True, \<lparr>majorVersion = 10, minorVersion = 0, buildVersion = 19045\<rparr>)
   \<and> tie \<lparr>majorVersion = 10, minorVersion = 0, buildVersion = 19045\<rparr> = (10, 0, 19045)
   \<and> isVersionAtLeast (Some (10, 0, 0xF0004A65)) initialVersion (10, 0, 22000)
       = Inr (False, \<lparr>majorVersion = 10, minorVersion = 0, buildVersion = 19045\<rparr>)
   \<and> isVersionAtLeast (Some (10, 0, 0xF0004A65)) initialVersion (10, 0, 19045)
       = Inr (True, \<lparr>majorVersion = 10, minorVersion = 0, buildVersion = 19045\<rparr>)"
proof -
  have a: "lex_less (triple (10, 0, 19045)) (triple (10, 0, 22000))"
    by (simp add: lex_less_def triple_def)
  have b: "isVersionAtLeast (Some (10, 0, 0xF0004A65)) initialVersion (6, 1, 0)
       = Inr (True, \<lparr>majorVersion = 10, minorVersion = 0, buildVersion = 19045\<rparr>)"
    by (simp add: isVersionAtLeast_def loadSystemVersion_def initialVersion_def tie_def
        tuple_le_def tuple_less_def)
  have c: "tie \<lparr>majorVersion = 10, minorVersion = 0, buildVersion = 19045\<rparr> = (10, 0, 19045)"
    by (simp add: tie_def)
  show ?thesis
    using a b c isVersionAtLeast_monotone [OF a b c] by simp
qed

section \<open>The parser on structured input\<close>

lemma separator_not_digit: "separator c \<Longrightarrow> \<not> is_digit c"
  by (auto simp: separator_def is_digit_def)

lemma at_separator_Cons: "at_separator (c # r) \<longleftrightarrow> separator c"
  by (auto simp: at_separator_def separator_def)

lemma at_separator_Nil: "\<not> at_separator []"
  by (simp add: at_separator_def)

lemma at_separator_iff: "at_separator s \<longleftrightarrow> s \<noteq> [] \<and> separator (hd s)"
  by (cases s) (simp_all add: at_separator_Nil at_separator_Cons)

lemma digits_then_separator:
  assumes "\<forall>c \<in> set ds. is_digit c" and "separator sep"
  shows "takeWhile is_digit (ds @ sep # r) = ds"
    and "dropWhile is_digit (ds @ sep # r) = sep # r"
  using assms by (simp_all add: takeWhile_append2 dropWhile_append2 separator_not_digit)

lemma digits_only:
  assumes "\<forall>c \<in> set ds. is_digit c"
  shows "takeWhile is_digit ds = ds" and "dropWhile is_digit ds = []"
  using assms by simp_all

lemma digit_not_alias:
  assumes "s \<noteq> []" and "is_digit (hd s)"
  shows "\<not> compare_eq s 0 5 ''Vista''" and "\<not> compare_eq s 0 5 ''vista''"
    and "\<not> compare_eq s 0 2 ''XP''" and "\<not> compare_eq s 0 2 ''xp''"
  using assms by (cases s; auto simp: compare_eq_def is_digit_def)+

lemma parseRequested_digits:
  assumes "s \<noteq> []" and "is_digit (hd s)"
  shows "parseRequested s =
           Some (of_nat (decimal_value (takeWhile is_digit s)), 0, dropWhile is_digit s)"
  using digit_not_alias [OF assms] extractVersionNumber_digit [OF assms, of 0]
  by (simp add: parseRequested_def)

lemma parseWindowsVersion_major_only:
  assumes "length p = 8" and "ds \<noteq> []" and "\<forall>c \<in> set ds. is_digit c"
  shows "parseWindowsVersion (p @ ds) = Inr (remapMajor (of_nat (decimal_value ds)) 0)"
proof -
  from assms have "is_digit (hd ds)" by (cases ds) auto
  from parseRequested_digits [OF assms(2) this]
  have "parseRequested ds = Some (of_nat (decimal_value ds), 0, [])"
    by (simp add: digits_only [OF assms(3)])
  with assms(1) show ?thesis
    by (simp add: parseWindowsVersion_def at_separator_Nil makeVersion_def split: prod.split)
qed

lemma parseWindowsVersion_major_sep:
  assumes "length p = 8" and "ds \<noteq> []" and "\<forall>c \<in> set ds. is_digit c" and "separator sep"
  shows "parseWindowsVersion (p @ ds @ sep # r) =
           Inr (case remapMajor (of_nat (decimal_value ds)) 0 of
                  (major, minor, build) \<Rightarrow>
                    parseUpdate (of_nat (decimal_value ds)) r major minor build)"
proof -
  from assms have "is_digit (hd (ds @ sep # r))" by (cases ds) auto
  with parseRequested_digits [of "ds @ sep # r"] assms(2)
  have "parseRequested (ds @ sep # r) = Some (of_nat (decimal_value ds), 0, sep # r)"
    by (simp add: digits_then_separator [OF assms(3,4)])
  with assms(1,4) show ?thesis
    by (simp add: parseWindowsVersion_def at_separator_Cons split: prod.split)
qed

lemma takeWhile_before: "\<not> P x \<Longrightarrow> takeWhile P (f @ x # r) = takeWhile P f"
  by (induction f) simp_all

lemma dropWhile_before: "\<not> P x \<Longrightarrow> dropWhile P (f @ x # r) = dropWhile P f @ x # r"
  by (induction f) simp_all

lemma namedUpdate_table: "namedUpdate reqMajor s = map_of (named_codes reqMajor) (take 4 s)"
  by (simp add: namedUpdate_def named_codes_def compare_eq_def)

lemma namedUpdate_Some:
  assumes "namedUpdate reqMajor s = Some b"
  shows "\<not> at_separator s" and "reqMajor = 10 \<or> reqMajor = 11"
  using assms
  by (cases s; auto simp: namedUpdate_def compare_eq_def at_separator_def split: if_splits)+

lemma parseUpdate_named:
  assumes "namedUpdate reqMajor s = Some b"
  shows "parseUpdate reqMajor s major 0 build = (major, 0, b)"
proof -
  have "remapMinor reqMajor major 0 b = (0, b)"
    by (simp add: remapMinor_def)
  with assms namedUpdate_Some(1) [OF assms] show ?thesis
    by (simp add: parseUpdate_def parseBuild_def makeVersion_def)
qed

lemma Windows_11_sep:
  "separator sep \<Longrightarrow>
   parseWindowsVersion (''Windows 11'' @ sep # s) = Inr (parseUpdate 11 s 10 0 22000)"
  using parseWindowsVersion_major_sep [of "''Windows ''" "''11''" sep s]
  by (simp add: is_digit_def decimal_value_def remapMajor_def)

lemma Windows_10_sep:
  "separator sep \<Longrightarrow>
   parseWindowsVersion (''Windows 10'' @ sep # s) = Inr (parseUpdate 10 s 10 0 0)"
  using parseWindowsVersion_major_sep [of "''Windows ''" "''10''" sep s]
  by (simp add: is_digit_def decimal_value_def remapMajor_def)

section \<open>The parser against its description\<close>

lemma begins_with_digit_iff: "begins_with_digit s \<longleftrightarrow> s \<noteq> [] \<and> is_digit (hd s)"
  by (cases s) (simp_all add: begins_with_digit_def is_digit_iff)

lemma all_digits_iff: "all_digits s \<longleftrightarrow> s \<noteq> [] \<and> (\<forall>c \<in> set s. is_digit c)"
  by (simp add: all_digits_def list_all_iff is_digit_iff)

lemma all_digits_begins: "all_digits s \<Longrightarrow> begins_with_digit s"
  by (cases s) (auto simp: all_digits_iff begins_with_digit_iff)

lemma all_digits_leading: "all_digits s \<Longrightarrow> leading_number s = of_nat (decimal_value s)"
proof -
  assume "all_digits s"
  then have "takeWhile decimal_digit s = s"
    by (simp add: all_digits_def list_all_iff)
  then show ?thesis
    by (simp only: leading_number_def)
qed

lemma parse_unfold:
  "length p = 8 \<Longrightarrow>
   parseWindowsVersion (p @ s) =
     (case parseRequested s of
        None \<Rightarrow> Inr makeVersion_default
      | Some (reqMajor, minor0, s') \<Rightarrow>
          (case remapMajor reqMajor minor0 of
             (major, minor, build) \<Rightarrow>
               if \<not> at_separator s' then Inr (makeVersion major minor build)
               else Inr (parseUpdate reqMajor (drop 1 s') major minor build)))"
  by (simp add: parseWindowsVersion_def)

text \<open>A view that begins with no digit: an alias or nothing.\<close>

lemma parse_no_digit:
  assumes "length p = 8" and "\<not> begins_with_digit s"
  shows "parseWindowsVersion (p @ s) =
           (if take 5 s = ''Vista'' \<or> take 5 s = ''vista'' then Inr (6, 0, 0)
            else if take 2 s = ''XP'' \<or> take 2 s = ''xp'' then Inr (5, 1, 0)
            else Inr makeVersion_default)"
proof -
  have fail: "fst (extractVersionNumber s 0) = False"
    using assms(2) extractVersionNumber_fail [of s 0] by (auto simp: begins_with_digit_iff)
  have v: "\<not> at_separator s" if "take 5 s = ''Vista'' \<or> take 5 s = ''vista''"
    using that by (cases s) (auto simp: at_separator_def)
  have x: "\<not> at_separator s" if "take 2 s = ''XP'' \<or> take 2 s = ''xp''"
    using that by (cases s) (auto simp: at_separator_def)
  show ?thesis
    unfolding parse_unfold [OF assms(1)]
    using fail v x
    by (cases "extractVersionNumber s 0")
      (auto simp: parseRequested_def compare_eq_def remapMajor_def makeVersion_def)
qed

lemma remapMajor_table: "remapMajor n 0 = major_table n"
  by (simp add: remapMajor_def major_table_def)

lemma parseBuild_final: "parseBuild rest M m b = (M, m, final_build rest b)"
proof (cases rest)
  case Nil
  then show ?thesis
    by (simp add: parseBuild_def at_separator_Nil makeVersion_def final_build_def)
next
  case (Cons c t)
  show ?thesis
  proof (cases "separator c \<and> begins_with_digit t")
    case True
    then have "t \<noteq> []" and "is_digit (hd t)"
      by (simp_all add: begins_with_digit_iff)
    from extractVersionNumber_digit [OF this, of b] True Cons show ?thesis
      by (simp add: parseBuild_def at_separator_Cons makeVersion_def final_build_def
          leading_number_def is_digit_eq)
  next
    case False
    then have "\<not> separator c \<or> fst (extractVersionNumber t b) = False"
      using extractVersionNumber_fail [of t b] by (auto simp: begins_with_digit_iff)
    moreover have "snd (snd (extractVersionNumber t b)) = b" if "\<not> fst (extractVersionNumber t b)"
      using that by (cases t) (auto simp: extractVersionNumber_def split: if_splits prod.splits)
    ultimately show ?thesis
      using False Cons
      by (cases "extractVersionNumber t b")
        (auto simp: parseBuild_def at_separator_Cons makeVersion_def final_build_def)
  qed
qed

lemma remapMinor_table:
  "remapMinor n M v b =
     (if M = 10 \<and> minor_remap n v \<noteq> 0 then (0, build_alias n (minor_remap n v))
      else (minor_remap n v, b))"
  by (simp add: remapMinor_def feature_builds_def minor_remap_def build_alias_def Let_def
      word_neq_0_conv)

lemma parseUpdate_qualified:
  assumes "major_table n = (M, m, b)"
  shows "parseUpdate n s M m b = qualifier_parse n s"
proof (cases "namedUpdate n s")
  case (Some b')
  then have n: "n = 10 \<or> n = 11"
    by (rule namedUpdate_Some(2))
  with assms have "M = 10" and "m = 0"
    by (auto simp: major_table_def)
  with Some parseUpdate_named [OF Some, of M b] show ?thesis
    by (simp add: qualifier_parse_def namedUpdate_table)
next
  case None
  show ?thesis
  proof (cases "begins_with_digit s")
    case False
    then have "fst (extractVersionNumber s m) = False"
      using extractVersionNumber_fail [of s m] by (auto simp: begins_with_digit_iff)
    moreover have "snd (snd (extractVersionNumber s m)) = m" if "\<not> fst (extractVersionNumber s m)"
      using that by (cases s) (auto simp: extractVersionNumber_def split: if_splits prod.splits)
    ultimately show ?thesis
      using None False assms
      by (cases "extractVersionNumber s m")
        (auto simp: parseUpdate_def qualifier_parse_def namedUpdate_table numeric_update_def
          makeVersion_def)
  next
    case True
    then have "s \<noteq> []" and "is_digit (hd s)"
      by (simp_all add: begins_with_digit_iff)
    from extractVersionNumber_digit [OF this, of m] None True assms show ?thesis
      by (simp add: parseUpdate_def qualifier_parse_def namedUpdate_table numeric_update_def
          numeric_fields_def remapMinor_table parseBuild_final leading_number_def is_digit_eq)
  qed
qed

lemma parse_major:
  assumes "length p = 8" and "all_digits ds"
  shows "parseWindowsVersion (p @ ds) = Inr (major_table (of_nat (decimal_value ds)))"
  using parseWindowsVersion_major_only [OF assms(1), of ds] assms(2)
  by (simp add: all_digits_iff remapMajor_table)

lemma parse_qualified:
  assumes "length p = 8" and "all_digits ds" and "separator sep"
  shows "parseWindowsVersion (p @ ds @ sep # s) = Inr (qualifier_parse (of_nat (decimal_value ds)) s)"
proof -
  obtain M m b where t: "major_table (of_nat (decimal_value ds)) = (M, m, b)"
    by (cases "major_table (of_nat (decimal_value ds) :: DWORD)") auto
  from parseWindowsVersion_major_sep [OF assms(1) _ _ assms(3), of ds s] assms(2)
  show ?thesis
    by (simp add: all_digits_iff remapMajor_table t parseUpdate_qualified [OF t])
qed

lemma separator_not_decimal: "separator c \<Longrightarrow> \<not> decimal_digit c"
  by (auto simp: separator_def decimal_digit_def)

lemma parse_digits:
  assumes "length p = 8" and "begins_with_digit s"
  shows "parseWindowsVersion (p @ s) =
           Inr (case dropWhile decimal_digit s of
                  [] \<Rightarrow> major_table (leading_number s)
                | c # f \<Rightarrow>
                    if separator c then qualifier_parse (leading_number s) f
                    else major_table (leading_number s))"
proof -
  define g where "g = dropWhile decimal_digit s"
  from assms(2) have s: "s \<noteq> []" "is_digit (hd s)"
    by (simp_all add: begins_with_digit_iff)
  obtain M m b where t: "major_table (leading_number s) = (M, m, b)"
    by (cases "major_table (leading_number s)") auto
  have req: "parseRequested s = Some (leading_number s, 0, g)"
    unfolding parseRequested_digits [OF s] g_def leading_number_def is_digit_eq ..
  have "parseWindowsVersion (p @ s) =
          Inr (case g of
                 [] \<Rightarrow> major_table (leading_number s)
               | c # f \<Rightarrow>
                   if separator c then qualifier_parse (leading_number s) f
                   else major_table (leading_number s))"
    unfolding parse_unfold [OF assms(1)] req
    by (cases g)
      (simp_all add: remapMajor_table t at_separator_Nil at_separator_Cons makeVersion_def
        parseUpdate_qualified [OF t])
  then show ?thesis
    unfolding g_def .
qed

lemma begins_ext: "separator sep \<Longrightarrow> begins_with_digit (f @ sep # r) = begins_with_digit f"
  by (cases f) (simp_all add: begins_with_digit_def separator_not_decimal)

lemma leading_ext: "separator sep \<Longrightarrow> leading_number (f @ sep # r) = leading_number f"
  by (simp add: leading_number_def takeWhile_before separator_not_decimal)

lemma drop_ext:
  "separator sep \<Longrightarrow>
   dropWhile decimal_digit (f @ sep # r) = dropWhile decimal_digit f @ sep # r"
  by (simp add: dropWhile_before separator_not_decimal)

lemma final_build_Nil: "final_build [] x = x"
  by (simp add: final_build_def)

lemma final_build_sep:
  "separator sep \<Longrightarrow>
   final_build (sep # r) x = (if begins_with_digit r then leading_number r else x)"
  by (simp add: final_build_def)

lemma final_build_ext:
  "separator sep \<Longrightarrow> g \<noteq> [] \<Longrightarrow> final_build (g @ sep # r) x = final_build g x"
  by (cases g) (simp_all add: final_build_def begins_ext leading_ext)

lemma take_sep_iff:
  assumes "length t = k" and "\<forall>c \<in> set t. \<not> separator c" and "separator sep"
  shows "take k (f @ sep # r) = t \<longleftrightarrow> take k f = t"
proof (cases "k \<le> length f")
  case True
  then show ?thesis by simp
next
  case False
  then have "take k f \<noteq> t"
    using assms(1) by auto
  moreover have "take k (f @ sep # r) \<noteq> t"
  proof
    assume e: "take k (f @ sep # r) = t"
    from False have "sep \<in> set (take k (f @ sep # r))"
      by (cases "k - length f") simp_all
    with e assms(2,3) show False by auto
  qed
  ultimately show ?thesis by simp
qed

lemma named_keys:
  "x \<in> fst ` set (named_codes n) \<Longrightarrow>
   length x = 4 \<and> CHR ''H'' \<in> set x \<and> (\<forall>c \<in> set x. \<not> separator c)"
proof -
  assume "x \<in> fst ` set (named_codes n)"
  then have "x \<in> {''22H2'', ''21H2'', ''21H1'', ''20H2''}"
    by (auto simp: named_codes_def split: if_splits)
  then show ?thesis
    by (auto simp: separator_def)
qed

lemma named_ext:
  assumes "separator sep"
  shows "map_of (named_codes n) (take 4 (f @ sep # r)) = map_of (named_codes n) (take 4 f)"
proof (cases "4 \<le> length f")
  case True
  then show ?thesis by simp
next
  case False
  have "take 4 f \<notin> fst ` set (named_codes n)"
    using False named_keys [of "take 4 f" n] by auto
  moreover have "take 4 (f @ sep # r) \<notin> fst ` set (named_codes n)"
  proof
    assume k: "take 4 (f @ sep # r) \<in> fst ` set (named_codes n)"
    from named_keys [OF k]
    have "(take 4 (f @ sep # r) = take 4 (f @ sep # r)) = (take 4 f = take 4 (f @ sep # r))"
      by (intro take_sep_iff assms) simp_all
    with False named_keys [OF k] show False by auto
  qed
  ultimately show ?thesis
    by (simp add: map_of_eq_None_iff [THEN iffD2])
qed

lemma named_digits:
  assumes "all_digits d"
  shows "map_of (named_codes n) (take 4 d) = None"
proof -
  have "take 4 d \<notin> fst ` set (named_codes n)"
  proof
    assume "take 4 d \<in> fst ` set (named_codes n)"
    from named_keys [OF this] have "CHR ''H'' \<in> set d"
      by (auto dest: in_set_takeD)
    with assms have "decimal_digit CHR ''H''"
      by (simp add: all_digits_def list_all_iff)
    then show False
      by (simp add: decimal_digit_def)
  qed
  then show ?thesis
    by (simp add: map_of_eq_None_iff [THEN iffD2])
qed

lemma digits_rest:
  "begins_with_digit f \<Longrightarrow> \<not> all_digits f \<Longrightarrow> dropWhile decimal_digit f \<noteq> []"
  by (auto simp: all_digits_def begins_with_digit_def list_all_iff split: list.splits)

lemma numeric_fields_ext:
  "separator sep \<Longrightarrow> g \<noteq> [] \<Longrightarrow>
   numeric_fields n t v (g @ sep # r) = numeric_fields n t v g"
  by (cases t) (simp add: numeric_fields_def final_build_ext)

lemma numeric_ext:
  assumes "separator sep" and "\<not> all_digits f"
  shows "numeric_update n (f @ sep # r) = numeric_update n f"
proof (cases "begins_with_digit f")
  case False
  then show ?thesis
    by (simp add: numeric_update_def begins_ext [OF assms(1)])
next
  case True
  have "numeric_fields n t v (dropWhile decimal_digit f @ sep # r) =
          numeric_fields n t v (dropWhile decimal_digit f)" for t v
    using assms(1) digits_rest [OF True assms(2)] by (rule numeric_fields_ext)
  then show ?thesis
    by (simp only: numeric_update_def begins_ext [OF assms(1)] leading_ext [OF assms(1)]
        drop_ext [OF assms(1)])
qed

lemma qualifier_ext:
  assumes "separator sep" and "\<not> all_digits f"
  shows "qualifier_parse n (f @ sep # r) = qualifier_parse n f"
  by (simp only: qualifier_parse_def named_ext [OF assms(1)] numeric_ext [OF assms])

lemma all_digits_drop: "all_digits d \<Longrightarrow> dropWhile decimal_digit d = []"
  by (simp add: all_digits_def list_all_iff)

lemma numeric_fields_sep:
  "separator sep \<Longrightarrow>
   numeric_fields n t v (sep # r) =
     (if begins_with_digit r then with_build (numeric_fields n t v []) (leading_number r)
      else numeric_fields n t v [])"
  by (cases t) (simp add: numeric_fields_def final_build_sep final_build_Nil with_build_def)

lemma numeric_digits_ext:
  assumes "separator sep" and "all_digits d"
  shows "numeric_update n (d @ sep # r) =
           (if begins_with_digit r then with_build (numeric_update n d) (leading_number r)
            else numeric_update n d)"
proof -
  have b: "begins_with_digit d" "begins_with_digit (d @ sep # r)"
    using all_digits_begins [OF assms(2)] by (simp_all add: begins_ext [OF assms(1)])
  have long: "numeric_update n (d @ sep # r) =
                numeric_fields n (major_table n) (leading_number d) (sep # r)"
    unfolding numeric_update_def
    by (simp only: b leading_ext [OF assms(1)] drop_ext [OF assms(1)]
        all_digits_drop [OF assms(2)] not_True_eq_False if_False append_Nil)
  have short: "numeric_update n d = numeric_fields n (major_table n) (leading_number d) []"
    unfolding numeric_update_def
    by (simp only: b all_digits_drop [OF assms(2)] not_True_eq_False if_False)
  show ?thesis
    unfolding long short by (rule numeric_fields_sep [OF assms(1)])
qed

lemma qualifier_digits:
  "all_digits d \<Longrightarrow> qualifier_parse n d = numeric_update n d"
  by (simp add: qualifier_parse_def named_digits)

lemma qualifier_digits_ext:
  assumes "separator sep" and "all_digits d"
  shows "qualifier_parse n (d @ sep # r) =
           (if begins_with_digit r then with_build (qualifier_parse n d) (leading_number r)
            else qualifier_parse n d)"
proof -
  have "qualifier_parse n (d @ sep # r) = numeric_update n (d @ sep # r)"
    by (simp only: qualifier_parse_def named_ext [OF assms(1)] named_digits [OF assms(2)]
        option.case)
  then show ?thesis
    by (simp only: qualifier_digits [OF assms(2)] numeric_digits_ext [OF assms])
qed

lemma weaker_Inr: "weaker (Inr a) (Inr b) \<longleftrightarrow> lex_le (triple a) (triple b)"
  by (simp add: weaker_def)

lemma lex_le_build_iff: "lex_le (triple (M, m, x)) (triple (M, m, y)) \<longleftrightarrow> x \<le> y"
  by (auto simp: lex_le_def lex_less_def triple_def word_le_nat_alt word_unat_eq_iff)

lemma lex_le_major: "lex_le (triple (M, 0, 0)) (triple (M, m, b))"
  by (auto simp: lex_le_def lex_less_def triple_def)

lemma lex_le_minor_iff: "lex_le (triple (M, k, 0)) (triple (M, m, y)) \<longleftrightarrow> k \<le> m"
  by (auto simp: lex_le_def lex_less_def triple_def word_le_nat_alt word_unat_eq_iff)

lemma word_ge_1: "(1 :: DWORD) \<le> v \<longleftrightarrow> v \<noteq> 0"
  by (auto simp: word_le_nat_alt unat_eq_0 Suc_le_eq unat_gt_0)

lemma word_ge_2: "(2 :: DWORD) \<le> v \<longleftrightarrow> v \<noteq> 0 \<and> v \<noteq> 1"
proof -
  have "unat v \<noteq> 0 \<and> unat v \<noteq> 1 \<longleftrightarrow> v \<noteq> 0 \<and> v \<noteq> 1"
    using word_unat_eq_iff [of v 0] word_unat_eq_iff [of v 1] by simp
  moreover have "2 \<le> unat v \<longleftrightarrow> unat v \<noteq> 0 \<and> unat v \<noteq> 1"
    by arith
  ultimately show ?thesis
    by (simp add: word_le_nat_alt)
qed

lemma fst_qualifier: "fst (qualifier_parse n r) = fst (major_table n)"
  by (auto simp: qualifier_parse_def numeric_update_def numeric_fields_def major_table_def
      named_codes_def split: option.splits if_splits)

lemma qualifier_11: "\<exists>b. qualifier_parse 11 r = (10, 0, b)"
  by (auto simp: qualifier_parse_def numeric_update_def numeric_fields_def major_table_def
      split: option.splits)

lemma qualifier_78:
  assumes "n = 7 \<or> n = 8"
  shows "qualifier_parse n r =
           (if begins_with_digit r
            then (6, minor_remap n (leading_number r), final_build (dropWhile decimal_digit r) 0)
            else major_table n)"
  using assms
  by (auto simp: qualifier_parse_def numeric_update_def numeric_fields_def major_table_def
      named_codes_def)

lemma qualifier_digits_build:
  assumes "all_digits d" and "n \<noteq> 10 \<and> n \<noteq> 11 \<or> n = 10 \<and> leading_number d = 0"
  shows "build_of (qualifier_parse n d) = 0"
  using assms(2) all_digits_begins [OF assms(1)]
  by (auto simp: qualifier_digits [OF assms(1)] numeric_update_def numeric_fields_def
      major_table_def all_digits_drop [OF assms(1)] final_build_Nil build_of_def minor_remap_def)

lemma ends_after_minor_parts:
  assumes "ends_after_minor body"
  shows "begins_with_digit body"
    and "\<exists>c. separator c \<and> dropWhile decimal_digit body = c # minor_field body"
    and "all_digits (minor_field body)"
  using assms
  by (auto simp: ends_after_minor_def minor_field_def split: list.splits)

lemma lower_v:
  "lower_char c = CHR ''v'' \<Longrightarrow> c \<noteq> CHR ''X'' \<and> c \<noteq> CHR ''x'' \<and> \<not> decimal_digit c"
  by (auto simp: lower_char_def decimal_digit_def)

lemma lower_x:
  "lower_char c = CHR ''x'' \<Longrightarrow> c \<noteq> CHR ''V'' \<and> c \<noteq> CHR ''v'' \<and> \<not> decimal_digit c"
  by (auto simp: lower_char_def decimal_digit_def)

lemma other_capitalization:
  assumes "length p = 8"
    and "same_ignoring_case w ''Vista'' \<and> w \<noteq> ''Vista'' \<and> w \<noteq> ''vista''
         \<or> same_ignoring_case w ''XP'' \<and> w \<noteq> ''XP'' \<and> w \<noteq> ''xp''"
  shows "parseWindowsVersion (p @ w @ r) = Inr makeVersion_default"
  using assms(2)
proof
  assume a: "same_ignoring_case w ''Vista'' \<and> w \<noteq> ''Vista'' \<and> w \<noteq> ''vista''"
  then have "map lower_char w = ''vista''"
    by (simp add: same_ignoring_case_def lower_char_def)
  then obtain c1 c2 c3 c4 c5 where w: "w = [c1, c2, c3, c4, c5]" and c1: "lower_char c1 = CHR ''v''"
    by (auto simp: map_eq_Cons_conv)
  from lower_v [OF c1] have nb: "\<not> begins_with_digit (w @ r)"
    by (simp add: w begins_with_digit_def)
  from lower_v [OF c1] a show ?thesis
    unfolding parse_no_digit [OF assms(1) nb] by (auto simp: w)
next
  assume a: "same_ignoring_case w ''XP'' \<and> w \<noteq> ''XP'' \<and> w \<noteq> ''xp''"
  then have "map lower_char w = ''xp''"
    by (simp add: same_ignoring_case_def lower_char_def)
  then obtain c1 c2 where w: "w = [c1, c2]" and c1: "lower_char c1 = CHR ''x''"
    by (auto simp: map_eq_Cons_conv)
  from lower_x [OF c1] have nb: "\<not> begins_with_digit (w @ r)"
    by (simp add: w begins_with_digit_def)
  from lower_x [OF c1] a show ?thesis
    unfolding parse_no_digit [OF assms(1) nb] by (auto simp: w)
qed

lemmas spec_defs =
  begins_with_digit_def leading_number_def all_digits_def major_table_def feature_builds_def
  final_build_def minor_remap_def build_alias_def numeric_fields_def numeric_update_def
  qualifier_parse_def build_of_def with_build_def minor_field_def
  ends_after_minor_def decimal_digit_def decimal_value_def separator_def named_codes_def

section \<open>The alias names\<close>

text \<open>
  C6, as the code has it. After the 8 characters of the prefix the parser recognizes the
  alias names in the two capitalizations that the code lists: "Vista" and "vista" give the
  requested major 6, "XP" and "xp" give the requested major 5 with minor 1. The test comes
  before the numeric extraction and consumes nothing, so that the result is (6,0,0) or
  (5,1,0) whatever follows the name. A text that begins with none of the four names and
  with no decimal digit is not parsed: the parser returns the invalid version
  \<open>(0xFFFFFFFF, 0, 0)\<close>. So it does on every other capitalization of "Vista" or "XP",
  whatever follows it.
\<close>

theorem alias_two_capitalizations:
  "(a = ''Vista'' \<or> a = ''vista'' \<longrightarrow>
      parseRequested (a @ r) = Some (6, 0, a @ r)
      \<and> (length p = 8 \<longrightarrow> parseWindowsVersion (p @ a @ r) = Inr (6, 0, 0)))
   \<and> (a = ''XP'' \<or> a = ''xp'' \<longrightarrow>
      parseRequested (a @ r) = Some (5, 1, a @ r)
      \<and> (length p = 8 \<longrightarrow> parseWindowsVersion (p @ a @ r) = Inr (5, 1, 0)))
   \<and> (take 5 s \<noteq> ''Vista'' \<and> take 5 s \<noteq> ''vista'' \<and> take 2 s \<noteq> ''XP'' \<and> take 2 s \<noteq> ''xp''
        \<and> (s = [] \<or> \<not> decimal_digit (hd s)) \<longrightarrow>
      parseRequested s = None
      \<and> (length p = 8 \<longrightarrow> parseWindowsVersion (p @ s) = Inr makeVersion_default))
   \<and> (length p = 8
        \<and> (same_ignoring_case w ''Vista'' \<and> w \<noteq> ''Vista'' \<and> w \<noteq> ''vista''
           \<or> same_ignoring_case w ''XP'' \<and> w \<noteq> ''XP'' \<and> w \<noteq> ''xp'') \<longrightarrow>
      parseWindowsVersion (p @ w @ r) = Inr makeVersion_default)
   \<and> makeVersion_default = (0xFFFFFFFF, 0, 0)"
proof (intro conjI impI)
  assume "a = ''Vista'' \<or> a = ''vista''"
  then show "parseRequested (a @ r) = Some (6, 0, a @ r)"
    by (auto simp: parseRequested_def compare_eq_def)
next
  assume "a = ''Vista'' \<or> a = ''vista''" and "length p = 8"
  then show "parseWindowsVersion (p @ a @ r) = Inr (6, 0, 0)"
    by (auto simp: parseWindowsVersion_def parseRequested_def compare_eq_def remapMajor_def
        at_separator_def makeVersion_def)
next
  assume "a = ''XP'' \<or> a = ''xp''"
  then show "parseRequested (a @ r) = Some (5, 1, a @ r)"
    by (auto simp: parseRequested_def compare_eq_def)
next
  assume "a = ''XP'' \<or> a = ''xp''" and "length p = 8"
  then show "parseWindowsVersion (p @ a @ r) = Inr (5, 1, 0)"
    by (auto simp: parseWindowsVersion_def parseRequested_def compare_eq_def remapMajor_def
        at_separator_def makeVersion_def)
next
  assume h: "take 5 s \<noteq> ''Vista'' \<and> take 5 s \<noteq> ''vista'' \<and> take 2 s \<noteq> ''XP'' \<and> take 2 s \<noteq> ''xp''
        \<and> (s = [] \<or> \<not> decimal_digit (hd s))"
  then have "fst (extractVersionNumber s 0) = False"
    using extractVersionNumber_fail [of s 0] by (simp add: is_digit_iff)
  with h show "parseRequested s = None"
    by (cases "extractVersionNumber s 0") (simp add: parseRequested_def compare_eq_def)
next
  assume h: "take 5 s \<noteq> ''Vista'' \<and> take 5 s \<noteq> ''vista'' \<and> take 2 s \<noteq> ''XP'' \<and> take 2 s \<noteq> ''xp''
        \<and> (s = [] \<or> \<not> decimal_digit (hd s))" and p: "length p = 8"
  then have "\<not> begins_with_digit s"
    by (cases s) (auto simp: begins_with_digit_def)
  from parse_no_digit [OF p this] h show "parseWindowsVersion (p @ s) = Inr makeVersion_default"
    by simp
next
  assume "length p = 8
        \<and> (same_ignoring_case w ''Vista'' \<and> w \<noteq> ''Vista'' \<and> w \<noteq> ''vista''
           \<or> same_ignoring_case w ''XP'' \<and> w \<noteq> ''XP'' \<and> w \<noteq> ''xp'')"
  then show "parseWindowsVersion (p @ w @ r) = Inr makeVersion_default"
    using other_capitalization by blast
next
  show "makeVersion_default = (0xFFFFFFFF, 0, 0)"
    by (simp add: makeVersion_default_def makeVersion_def)
qed

text \<open>
  The two names with text after them, a text that is no alias, and two capitalizations
  that are not listed.
\<close>

theorem alias_two_capitalizations_witness:
  "parseRequested ''vista SP2'' = Some (6, 0, ''vista SP2'')
   \<and> parseWindowsVersion ''Windows vista SP2'' = Inr (6, 0, 0)
   \<and> parseRequested ''XP.5'' = Some (5, 1, ''XP.5'')
   \<and> parseWindowsVersion ''windows XP.5'' = Inr (5, 1, 0)
   \<and> parseRequested ''Server 2008'' = None
   \<and> parseWindowsVersion ''Windows Server 2008'' = Inr (0xFFFFFFFF, 0, 0)
   \<and> same_ignoring_case ''VIsta'' ''Vista''
   \<and> parseWindowsVersion ''Windows VIsta SP2'' = Inr (0xFFFFFFFF, 0, 0)
   \<and> same_ignoring_case ''xP'' ''XP''
   \<and> parseWindowsVersion ''Windows xP'' = Inr (0xFFFFFFFF, 0, 0)"
  using alias_two_capitalizations
      [where a = "''vista''" and r = "'' SP2''" and p = "''Windows ''" and s = "''Server 2008''"
        and w = "''VIsta''"]
    alias_two_capitalizations
      [where a = "''XP''" and r = "''.5''" and p = "''windows ''" and s = "''Server 2008''"
        and w = "''xP''"]
    alias_two_capitalizations
      [where a = "''XP''" and r = "[]" and p = "''Windows ''" and s = "''Server 2008''"
        and w = "''xP''"]
  by (simp add: decimal_digit_def same_ignoring_case_def lower_char_def)

text \<open>
  The recognition is not case-insensitive: "VISTA" and "Xp" are capitalizations of the
  alias names and give the invalid version.
\<close>

theorem alias_case_insensitive_counterexample:
  "same_ignoring_case ''VISTA'' ''Vista''
   \<and> parseRequested ''VISTA'' = None
   \<and> parseWindowsVersion ''Windows VISTA'' = Inr (0xFFFFFFFF, 0, 0)
   \<and> same_ignoring_case ''Xp'' ''XP''
   \<and> parseRequested ''Xp'' = None
   \<and> parseWindowsVersion ''Windows Xp'' = Inr (0xFFFFFFFF, 0, 0)"
  by (simp add: parse_defs same_ignoring_case_def lower_char_def)

section \<open>The named updates\<close>

text \<open>
  C7, as the code has it. After the requested major number and one separator, the parser
  compares the first 4 characters of the rest, case-sensitively, with the named codes of
  the requested major (11: "22H2", "21H2"; 10: "22H2", "21H2", "21H1", "20H2"; none for
  any other major, the major being the value of its digits modulo \<open>2 ^ 32\<close>). A match
  sets the build number of the table and skips the extraction of the minor number; the
  view stays on the code, so the result is (10, 0, build) whatever follows the code. A
  rest whose first 4 characters are none of the codes does not take this path: the parser
  returns what the numeric fields give, and without a leading digit (10,0,0) for
  Windows 10 and (10,0,22000) for Windows 11.
\<close>

theorem named_update_prefix_match:
  "namedUpdate reqMajor s = map_of (named_codes reqMajor) (take 4 s)
   \<and> (take 4 s \<notin> fst ` set (named_codes reqMajor) \<longrightarrow> namedUpdate reqMajor s = None)
   \<and> (namedUpdate reqMajor s = Some b \<longrightarrow>
        parseUpdate reqMajor s major 0 build = (major, 0, b))
   \<and> (separator sep \<and> (code, b) \<in> set (named_codes 11) \<longrightarrow>
        parseWindowsVersion (''Windows 11'' @ sep # code @ r) = Inr (10, 0, b))
   \<and> (separator sep \<and> (code, b) \<in> set (named_codes 10) \<longrightarrow>
        parseWindowsVersion (''Windows 10'' @ sep # code @ r) = Inr (10, 0, b))
   \<and> (length p = 8 \<and> all_digits ds \<and> separator sep \<longrightarrow>
        parseWindowsVersion (p @ ds @ sep # s) =
          Inr (case map_of (named_codes (leading_number ds)) (take 4 s) of
                 Some b \<Rightarrow> (10, 0, b)
               | None \<Rightarrow> numeric_update (leading_number ds) s))
   \<and> (separator sep \<and> take 4 s \<notin> fst ` set (named_codes 10) \<longrightarrow>
        parseWindowsVersion (''Windows 10'' @ sep # s) = Inr (numeric_update 10 s)
        \<and> (\<not> begins_with_digit s \<longrightarrow>
             parseWindowsVersion (''Windows 10'' @ sep # s) = Inr (10, 0, 0)))
   \<and> (separator sep \<and> take 4 s \<notin> fst ` set (named_codes 11) \<longrightarrow>
        parseWindowsVersion (''Windows 11'' @ sep # s) = Inr (numeric_update 11 s)
        \<and> (\<not> begins_with_digit s \<longrightarrow>
             parseWindowsVersion (''Windows 11'' @ sep # s) = Inr (10, 0, 22000)))"
proof (intro conjI impI)
  show "namedUpdate reqMajor s = map_of (named_codes reqMajor) (take 4 s)"
    by (rule namedUpdate_table)
  show "namedUpdate reqMajor s = None" if "take 4 s \<notin> fst ` set (named_codes reqMajor)"
    using that by (simp add: namedUpdate_table map_of_eq_None_iff)
  show "parseUpdate reqMajor s major 0 build = (major, 0, b)"
    if "namedUpdate reqMajor s = Some b"
    using that by (rule parseUpdate_named)
  show "parseWindowsVersion (''Windows 11'' @ sep # code @ r) = Inr (10, 0, b)"
    if "separator sep \<and> (code, b) \<in> set (named_codes 11)"
  proof -
    from that have "namedUpdate 11 (code @ r) = Some b"
      by (auto simp: namedUpdate_table named_codes_def)
    moreover from that have "separator sep" ..
    ultimately show ?thesis
      by (simp only: Windows_11_sep parseUpdate_named)
  qed
  show "parseWindowsVersion (''Windows 10'' @ sep # code @ r) = Inr (10, 0, b)"
    if "separator sep \<and> (code, b) \<in> set (named_codes 10)"
  proof -
    from that have "namedUpdate 10 (code @ r) = Some b"
      by (auto simp: namedUpdate_table named_codes_def)
    moreover from that have "separator sep" ..
    ultimately show ?thesis
      by (simp only: Windows_10_sep parseUpdate_named)
  qed
  show "parseWindowsVersion (p @ ds @ sep # s) =
          Inr (case map_of (named_codes (leading_number ds)) (take 4 s) of
                 Some b \<Rightarrow> (10, 0, b)
               | None \<Rightarrow> numeric_update (leading_number ds) s)"
    if "length p = 8 \<and> all_digits ds \<and> separator sep"
  proof -
    from that have h: "length p = 8" "all_digits ds" "separator sep"
      by simp_all
    show ?thesis
      unfolding parse_qualified [OF h] all_digits_leading [OF h(2)] qualifier_parse_def ..
  qed
  have t10: "major_table 10 = (10, 0, 0)" and t11: "major_table 11 = (10, 0, 22000)"
    by (simp_all add: major_table_def)
  show w10: "parseWindowsVersion (''Windows 10'' @ sep # s) = Inr (numeric_update 10 s)"
    if "separator sep \<and> take 4 s \<notin> fst ` set (named_codes 10)"
  proof -
    from that have "map_of (named_codes 10) (take 4 s) = None"
      by (simp add: map_of_eq_None_iff)
    moreover from that have "separator sep" ..
    ultimately show ?thesis
      by (simp only: Windows_10_sep parseUpdate_qualified [OF t10] qualifier_parse_def
          option.case)
  qed
  show w11: "parseWindowsVersion (''Windows 11'' @ sep # s) = Inr (numeric_update 11 s)"
    if "separator sep \<and> take 4 s \<notin> fst ` set (named_codes 11)"
  proof -
    from that have "map_of (named_codes 11) (take 4 s) = None"
      by (simp add: map_of_eq_None_iff)
    moreover from that have "separator sep" ..
    ultimately show ?thesis
      by (simp only: Windows_11_sep parseUpdate_qualified [OF t11] qualifier_parse_def
          option.case)
  qed
  show "parseWindowsVersion (''Windows 10'' @ sep # s) = Inr (10, 0, 0)"
    if "separator sep \<and> take 4 s \<notin> fst ` set (named_codes 10)" and "\<not> begins_with_digit s"
    unfolding w10 [OF that(1)] using that(2) by (simp add: numeric_update_def t10)
  show "parseWindowsVersion (''Windows 11'' @ sep # s) = Inr (10, 0, 22000)"
    if "separator sep \<and> take 4 s \<notin> fst ` set (named_codes 11)" and "\<not> begins_with_digit s"
    unfolding w11 [OF that(1)] using that(2) by (simp add: numeric_update_def t11)
qed

text \<open>
  A code with text after it, the same code in lower case, a code of Windows 10 asked of
  Windows 11, and whole strings on both paths.
\<close>

theorem named_update_prefix_match_witness:
  "namedUpdate 10 ''21H1 beta'' = Some 19043
   \<and> namedUpdate 10 ''21h1'' = None
   \<and> namedUpdate 11 ''21H1'' = None
   \<and> parseUpdate 10 ''21H1 beta'' 10 0 0 = (10, 0, 19043)
   \<and> parseWindowsVersion ''Windows 11_22H2.5'' = Inr (10, 0, 22621)
   \<and> parseWindowsVersion ''Windows 10 20H2'' = Inr (10, 0, 19042)
   \<and> parseWindowsVersion ''Windows 10 21h1'' = Inr (10, 0, 21)
   \<and> parseWindowsVersion ''Windows 11 21H1'' = Inr (10, 0, 21)
   \<and> parseWindowsVersion ''Windows 10 H2'' = Inr (10, 0, 0)
   \<and> parseWindowsVersion ''Windows 11 h2'' = Inr (10, 0, 22000)
   \<and> parseWindowsVersion ''Windows 8 22H2'' = Inr (6, 22, 0)
   \<and> parseWindowsVersion ''windows 010.22H2'' = Inr (10, 0, 19045)"
  using named_update_prefix_match
      [where reqMajor = 10 and s = "''21H1 beta''" and b = 19043 and major = 10 and build = 0]
    named_update_prefix_match [where reqMajor = 10 and s = "''21h1''" and sep = "CHR '' ''"]
    named_update_prefix_match [where reqMajor = 11 and s = "''21H1''" and sep = "CHR '' ''"]
    named_update_prefix_match [where sep = "CHR '' ''" and code = "''20H2''" and b = 19042
      and r = "[]"]
    named_update_prefix_match [where sep = "CHR ''_''" and code = "''22H2''" and b = 22621
      and r = "''.5''"]
    named_update_prefix_match [where sep = "CHR '' ''" and s = "''H2''"]
    named_update_prefix_match [where sep = "CHR '' ''" and s = "''h2''"]
    named_update_prefix_match [where p = "''Windows ''" and ds = "''8''" and sep = "CHR '' ''"
      and s = "''22H2''"]
    named_update_prefix_match [where p = "''windows ''" and ds = "''010''" and sep = "CHR ''.''"
      and s = "''22H2''"]
  by (simp add: spec_defs)

text \<open>
  The match is not exact: the update field "22H2abc" is none of the codes and takes the
  path of "22H2".
\<close>

theorem named_update_exact_counterexample:
  "update_field ''22H2abc'' = ''22H2abc''
   \<and> ''22H2abc'' \<notin> fst ` set (named_codes 11)
   \<and> namedUpdate 11 ''22H2abc'' = Some 22621
   \<and> parseWindowsVersion ''Windows 11 22H2abc'' = Inr (10, 0, 22621)"
  by (simp add: parse_defs update_field_def separator_def named_codes_def)

section \<open>Truncated version strings\<close>

text \<open>
  C8, as the code has it. Let the shorter string be 8 characters and a body, and the
  longer one the shorter, a separator and any text \<open>r\<close>; \<open>n\<close> is the leading number
  of the body modulo \<open>2 ^ 32\<close>.
  \<^item> When the body is neither all digits nor a number, one separator and a text that is
    all digits, the two parses are equal, so the shorter one is at most the longer one.
  \<^item> When the body is all digits, the shorter string parses to the triple of the major
    and the longer one to what the qualifier \<open>r\<close> gives; the shorter parse is at most
    the longer one for every \<open>n\<close> other than 7, 8 and 11; for 7 and 8 exactly when
    \<open>r\<close> does not begin with a number of value 0; for 11 exactly when the build of
    the longer parse is at least 22000.
  \<^item> When the body is a number, one separator and digits, the longer parse is the
    shorter one with the build replaced by the leading number of \<open>r\<close>, if \<open>r\<close> begins
    with a digit, and else the shorter one; so the shorter parse is at most the longer one
    exactly when \<open>r\<close> begins with no digit or its leading number is at least the build
    of the shorter parse, which is 0 when \<open>n\<close> is not 10 or 11, and when \<open>n\<close> is 10
    and the digits have the value 0.
  In particular parse("Windows 10") is at most parse("Windows 10.0.19044").
\<close>

theorem truncated_parse_weaker:
  assumes "length p = 8" and "separator sep"
  shows
    "(\<not> all_digits body \<and> \<not> ends_after_minor body \<longrightarrow>
        parseWindowsVersion (p @ body @ sep # r) = parseWindowsVersion (p @ body)
        \<and> weaker (parseWindowsVersion (p @ body)) (parseWindowsVersion (p @ body @ sep # r)))
     \<and> (all_digits body \<longrightarrow>
          parseWindowsVersion (p @ body) = Inr (major_table (leading_number body))
          \<and> parseWindowsVersion (p @ body @ sep # r) =
              Inr (qualifier_parse (leading_number body) r)
          \<and> (leading_number body \<notin> {7, 8, 11} \<longrightarrow>
                weaker (parseWindowsVersion (p @ body))
                  (parseWindowsVersion (p @ body @ sep # r)))
          \<and> (leading_number body \<in> {7, 8} \<longrightarrow>
                (weaker (parseWindowsVersion (p @ body))
                   (parseWindowsVersion (p @ body @ sep # r))
                 \<longleftrightarrow> \<not> (begins_with_digit r \<and> leading_number r = 0)))
          \<and> (leading_number body = 11 \<longrightarrow>
                (weaker (parseWindowsVersion (p @ body))
                   (parseWindowsVersion (p @ body @ sep # r))
                 \<longleftrightarrow> 22000 \<le> build_of (qualifier_parse 11 r))))
     \<and> (ends_after_minor body \<longrightarrow>
          parseWindowsVersion (p @ body) =
              Inr (qualifier_parse (leading_number body) (minor_field body))
          \<and> parseWindowsVersion (p @ body @ sep # r) =
              Inr (if begins_with_digit r
                   then with_build (qualifier_parse (leading_number body) (minor_field body))
                          (leading_number r)
                   else qualifier_parse (leading_number body) (minor_field body))
          \<and> (weaker (parseWindowsVersion (p @ body))
                (parseWindowsVersion (p @ body @ sep # r))
              \<longleftrightarrow> \<not> begins_with_digit r
                  \<or> build_of (qualifier_parse (leading_number body) (minor_field body))
                      \<le> leading_number r)
          \<and> (leading_number body \<noteq> 10 \<and> leading_number body \<noteq> 11
              \<or> leading_number body = 10 \<and> leading_number (minor_field body) = 0 \<longrightarrow>
                weaker (parseWindowsVersion (p @ body))
                  (parseWindowsVersion (p @ body @ sep # r))))
     \<and> parseWindowsVersion ''Windows 10'' = Inr (10, 0, 0)
     \<and> parseWindowsVersion ''Windows 10.0.19044'' = Inr (10, 0, 19044)
     \<and> weaker (parseWindowsVersion ''Windows 10'') (parseWindowsVersion ''Windows 10.0.19044'')"
proof -
  let ?n = "leading_number body"
  let ?S = "parseWindowsVersion (p @ body)"
  let ?L = "parseWindowsVersion (p @ body @ sep # r)"
  have E: "?L = ?S" if no: "\<not> all_digits body" "\<not> ends_after_minor body"
  proof (cases "begins_with_digit body")
    case False
    then have "\<not> begins_with_digit (body @ sep # r)"
      by (simp add: begins_ext [OF assms(2)])
    then have nbl: "\<not> begins_with_digit (body @ sep # r)" .
    have v1: "(take 5 (body @ sep # r) = ''Vista'') = (take 5 body = ''Vista'')"
      by (rule take_sep_iff [OF _ _ assms(2)]) (simp_all add: separator_def)
    have v2: "(take 5 (body @ sep # r) = ''vista'') = (take 5 body = ''vista'')"
      by (rule take_sep_iff [OF _ _ assms(2)]) (simp_all add: separator_def)
    have x1: "(take 2 (body @ sep # r) = ''XP'') = (take 2 body = ''XP'')"
      by (rule take_sep_iff [OF _ _ assms(2)]) (simp_all add: separator_def)
    have x2: "(take 2 (body @ sep # r) = ''xp'') = (take 2 body = ''xp'')"
      by (rule take_sep_iff [OF _ _ assms(2)]) (simp_all add: separator_def)
    show ?thesis
      unfolding parse_no_digit [OF assms(1) nbl] parse_no_digit [OF assms(1) False]
        v1 v2 x1 x2 ..
  next
    case True
    then have bl: "begins_with_digit (body @ sep # r)"
      by (simp add: begins_ext [OF assms(2)])
    obtain c f where g: "dropWhile decimal_digit body = c # f"
      using digits_rest [OF True no(1)] by (cases "dropWhile decimal_digit body") auto
    have f: "\<not> all_digits f" if "separator c"
      using no(2) True g that by (simp add: ends_after_minor_def)
    have short: "?S = Inr (if separator c then qualifier_parse ?n f else major_table ?n)"
      using parse_digits [OF assms(1) True] by (simp only: g list.case)
    have "parseWindowsVersion (p @ (body @ sep # r)) =
            Inr (if separator c then qualifier_parse ?n (f @ sep # r) else major_table ?n)"
      using parse_digits [OF assms(1) bl]
      by (simp only: drop_ext [OF assms(2)] leading_ext [OF assms(2)] g append_Cons list.case)
    then have long: "?L = Inr (if separator c then qualifier_parse ?n (f @ sep # r)
                               else major_table ?n)"
      by simp
    show ?thesis
      unfolding short long using f by (simp add: qualifier_ext [OF assms(2)])
  qed
  have E': "weaker ?S ?L" if no: "\<not> all_digits body" "\<not> ends_after_minor body"
  proof -
    from assms(1) have "\<not> isl ?S"
      by (intro parseWindowsVersion_returns) simp
    then obtain a where "?S = Inr a"
      by (cases ?S) auto
    then show ?thesis
      by (simp add: E [OF no] weaker_Inr lex_le_refl)
  qed
  have A1: "?S = Inr (major_table ?n)" if "all_digits body"
    using parse_major [OF assms(1) that] by (simp add: all_digits_leading [OF that])
  have A2: "?L = Inr (qualifier_parse ?n r)" if "all_digits body"
    using parse_qualified [OF assms(1) that assms(2)] by (simp add: all_digits_leading [OF that])
  have A3: "weaker ?S ?L" if "all_digits body" and n: "?n \<notin> {7, 8, 11}"
  proof -
    from n have t: "major_table ?n = (?n, 0, 0)"
      by (simp add: major_table_def)
    obtain m b where "qualifier_parse ?n r = (?n, m, b)"
      using fst_qualifier [of ?n r] t by (cases "qualifier_parse ?n r") auto
    then show ?thesis
      by (simp add: A1 [OF that(1)] A2 [OF that(1)] weaker_Inr t lex_le_major)
  qed
  have A4: "weaker ?S ?L \<longleftrightarrow> \<not> (begins_with_digit r \<and> leading_number r = 0)"
    if "all_digits body" and n: "?n \<in> {7, 8}"
  proof -
    from n have n': "?n = 7 \<or> ?n = 8" by simp
    show ?thesis
      unfolding A1 [OF that(1)] A2 [OF that(1)] weaker_Inr qualifier_78 [OF n']
      using n'
      by (auto simp: major_table_def lex_le_refl lex_le_minor_iff minor_remap_def
          word_ge_1 word_ge_2)
  qed
  have A5: "weaker ?S ?L \<longleftrightarrow> 22000 \<le> build_of (qualifier_parse 11 r)"
    if "all_digits body" and n: "?n = 11"
  proof -
    obtain b where q: "qualifier_parse 11 r = (10, 0, b)"
      using qualifier_11 by blast
    show ?thesis
      unfolding A1 [OF that(1)] A2 [OF that(1)] weaker_Inr n q
      by (simp add: major_table_def lex_le_build_iff build_of_def)
  qed
  let ?q = "qualifier_parse ?n (minor_field body)"
  have B1: "?S = Inr ?q" if e: "ends_after_minor body"
  proof -
    obtain c where c: "separator c" "dropWhile decimal_digit body = c # minor_field body"
      using ends_after_minor_parts(2) [OF e] by blast
    from parse_digits [OF assms(1) ends_after_minor_parts(1) [OF e]] c(1) show ?thesis
      by (simp only: c(2) list.case if_True)
  qed
  have B2: "?L = Inr (if begins_with_digit r then with_build ?q (leading_number r) else ?q)"
    if e: "ends_after_minor body"
  proof -
    obtain c where c: "separator c" "dropWhile decimal_digit body = c # minor_field body"
      using ends_after_minor_parts(2) [OF e] by blast
    have bl: "begins_with_digit (body @ sep # r)"
      using ends_after_minor_parts(1) [OF e] by (simp add: begins_ext [OF assms(2)])
    have "parseWindowsVersion (p @ (body @ sep # r)) =
            Inr (qualifier_parse ?n (minor_field body @ sep # r))"
      using parse_digits [OF assms(1) bl] c(1)
      by (simp only: drop_ext [OF assms(2)] leading_ext [OF assms(2)] c(2) append_Cons
          list.case if_True)
    then show ?thesis
      by (simp add: qualifier_digits_ext [OF assms(2) ends_after_minor_parts(3) [OF e]])
  qed
  have B3: "weaker ?S ?L \<longleftrightarrow> \<not> begins_with_digit r \<or> build_of ?q \<le> leading_number r"
    if e: "ends_after_minor body"
    unfolding B1 [OF e] B2 [OF e] weaker_Inr
    by (cases ?q) (simp add: lex_le_refl with_build_def build_of_def lex_le_build_iff)
  have B4: "weaker ?S ?L"
    if e: "ends_after_minor body"
      and n: "?n \<noteq> 10 \<and> ?n \<noteq> 11 \<or> ?n = 10 \<and> leading_number (minor_field body) = 0"
    using qualifier_digits_build [OF ends_after_minor_parts(3) [OF e] n]
    by (simp add: B3 [OF e])
  have P1: "parseWindowsVersion ''Windows 10'' = Inr (10, 0, 0)"
    by (simp add: parse_defs)
  have P2: "parseWindowsVersion ''Windows 10.0.19044'' = Inr (10, 0, 19044)"
    by (simp add: parse_defs)
  have P3: "weaker (parseWindowsVersion ''Windows 10'')
              (parseWindowsVersion ''Windows 10.0.19044'')"
    unfolding P1 P2 by (simp add: weaker_Inr lex_le_def lex_less_def triple_def)
  show ?thesis
    using E E' A1 A2 A3 A4 A5 B1 B2 B3 B4 P1 P2 P3 by blast
qed

text \<open>
  An alias and a named code with something added, "Windows 6" and "Windows 6.1" against
  "Windows 6.1.7601", "Windows 10.0" against "Windows 10.0.19044", and pairs on either
  side of the conditions, one of them with a major number that wraps around to 7.
\<close>

theorem truncated_parse_weaker_witness:
  "parseWindowsVersion ''Windows Vista.1'' = parseWindowsVersion ''Windows Vista''
   \<and> parseWindowsVersion ''Windows 10 22H2.1'' = parseWindowsVersion ''Windows 10 22H2''
   \<and> weaker (parseWindowsVersion ''Windows 6'') (parseWindowsVersion ''Windows 6.1.7601'')
   \<and> \<not> weaker (parseWindowsVersion ''Windows 7'') (parseWindowsVersion ''Windows 7.0'')
   \<and> \<not> weaker (parseWindowsVersion ''Windows 4294967303'')
        (parseWindowsVersion ''Windows 4294967303.0'')
   \<and> weaker (parseWindowsVersion ''Windows 11'') (parseWindowsVersion ''Windows 11 22H2'')
   \<and> weaker (parseWindowsVersion ''Windows 6.1'') (parseWindowsVersion ''Windows 6.1.7601'')
   \<and> weaker (parseWindowsVersion ''Windows 10.0'') (parseWindowsVersion ''Windows 10.0.19044'')
   \<and> \<not> weaker (parseWindowsVersion ''Windows 10 2004'')
        (parseWindowsVersion ''Windows 10 2004.1'')"
proof -
  have h: "length ''Windows '' = 8" "separator CHR ''.''" "separator CHR '' ''"
    by (simp_all add: separator_def)
  show ?thesis
    using truncated_parse_weaker [OF h(1,2), where body = "''Vista''" and r = "''1''"]
      truncated_parse_weaker [OF h(1,2), where body = "''10 22H2''" and r = "''1''"]
      truncated_parse_weaker [OF h(1,2), where body = "''6''" and r = "''1.7601''"]
      truncated_parse_weaker [OF h(1,2), where body = "''7''" and r = "''0''"]
      truncated_parse_weaker [OF h(1,2), where body = "''4294967303''" and r = "''0''"]
      truncated_parse_weaker [OF h(1,3), where body = "''11''" and r = "''22H2''"]
      truncated_parse_weaker [OF h(1,2), where body = "''6.1''" and r = "''7601''"]
      truncated_parse_weaker [OF h(1,2), where body = "''10.0''" and r = "''19044''"]
      truncated_parse_weaker [OF h(1,2), where body = "''10 2004''" and r = "''1''"]
    by (simp add: spec_defs) (simp add: weaker_def lex_le_def lex_less_def triple_def)
qed

text \<open>
  It does not hold for every string: "Windows 11.1" extends "Windows 11" and parses to
  less.
\<close>

theorem truncated_parse_counterexample:
  "parseWindowsVersion ''Windows 11'' = Inr (10, 0, 22000)
   \<and> parseWindowsVersion (''Windows 11'' @ CHR ''.'' # ''1'') = Inr (10, 0, 1)
   \<and> (10, 0, 1) \<noteq> makeVersion_default
   \<and> \<not> lex_le (triple (10, 0, 22000)) (triple (10, 0, 1))"
  by (simp add: parse_defs lex_le_def lex_less_def triple_def)

section \<open>The numeric qualifier of Windows 11\<close>

text \<open>
  C10, as the code has it. On "Windows 11", one separator and a text that begins with a
  run of decimal digits of value \<open>n > 0\<close> (modulo \<open>2 ^ 32\<close>), where the run is not
  followed by a separator and the text does not begin with the named codes "22H2" or
  "21H2", the parser returns (10, 0, n): the number replaces the build 22000. In
  particular "Windows 11.1" gives (10,0,1) and "Windows 11 21H1" gives (10,0,21), both less
  than (10,0,22000) of "Windows 11".
\<close>

theorem windows11_numeric_qualifier:
  assumes "separator sep" and "s \<noteq> []" and "decimal_digit (hd s)"
    and "0 < (of_nat (decimal_value (takeWhile decimal_digit s)) :: DWORD)"
    and "dropWhile decimal_digit s = [] \<or> \<not> separator (hd (dropWhile decimal_digit s))"
    and "take 4 s \<noteq> ''22H2''" and "take 4 s \<noteq> ''21H2''"
  shows "parseWindowsVersion (''Windows 11'' @ sep # s) =
           Inr (10, 0, of_nat (decimal_value (takeWhile decimal_digit s)))
         \<and> parseWindowsVersion ''Windows 11.1'' = Inr (10, 0, 1)
         \<and> parseWindowsVersion ''Windows 11 21H1'' = Inr (10, 0, 21)
         \<and> parseWindowsVersion ''Windows 11'' = Inr (10, 0, 22000)
         \<and> lex_less (triple (10, 0, 1)) (triple (10, 0, 22000))
         \<and> lex_less (triple (10, 0, 21)) (triple (10, 0, 22000))"
proof (intro conjI)
  let ?n = "of_nat (decimal_value (takeWhile decimal_digit s)) :: DWORD"
  have named: "namedUpdate 11 s = None"
    using assms(6,7) by (simp add: namedUpdate_def compare_eq_def)
  have ex: "extractVersionNumber s 0 = (True, dropWhile decimal_digit s, ?n)"
    using extractVersionNumber_digit [of s 0] assms(2,3) by (simp add: is_digit_eq)
  have rm: "remapMinor 11 10 ?n 22000 = (0, ?n)"
    using assms(4) by (simp add: remapMinor_def)
  have pb: "parseBuild (dropWhile decimal_digit s) 10 0 ?n = (10, 0, ?n)"
    using assms(5) by (simp add: parseBuild_def at_separator_iff makeVersion_def)
  show "parseWindowsVersion (''Windows 11'' @ sep # s) = Inr (10, 0, ?n)"
    unfolding Windows_11_sep [OF assms(1)]
    by (simp add: parseUpdate_def named ex rm pb)
  show "parseWindowsVersion ''Windows 11.1'' = Inr (10, 0, 1)"
    by (simp add: parse_defs)
  show "parseWindowsVersion ''Windows 11 21H1'' = Inr (10, 0, 21)"
    by (simp add: parse_defs)
  show "parseWindowsVersion ''Windows 11'' = Inr (10, 0, 22000)"
    by (simp add: parse_defs)
  show "lex_less (triple (10, 0, 1)) (triple (10, 0, 22000))"
    by (simp add: lex_less_def triple_def)
  show "lex_less (triple (10, 0, 21)) (triple (10, 0, 22000))"
    by (simp add: lex_less_def triple_def)
qed

text \<open>A run that wraps around to 42, followed by letters.\<close>

theorem windows11_numeric_qualifier_witness:
  "separator CHR ''_'' \<and> decimal_digit (hd ''4294967338rc'')
   \<and> takeWhile decimal_digit ''4294967338rc'' = ''4294967338''
   \<and> dropWhile decimal_digit ''4294967338rc'' = ''rc''
   \<and> (0 :: DWORD) < of_nat (decimal_value ''4294967338'')
   \<and> \<not> separator CHR ''r''
   \<and> parseWindowsVersion ''Windows 11_4294967338rc'' = Inr (10, 0, 42)"
proof -
  have h: "separator CHR ''_''" "''4294967338rc'' \<noteq> []" "decimal_digit (hd ''4294967338rc'')"
    "0 < (of_nat (decimal_value (takeWhile decimal_digit ''4294967338rc'')) :: DWORD)"
    "dropWhile decimal_digit ''4294967338rc'' = []
       \<or> \<not> separator (hd (dropWhile decimal_digit ''4294967338rc''))"
    "take 4 ''4294967338rc'' \<noteq> ''22H2''" "take 4 ''4294967338rc'' \<noteq> ''21H2''"
    by (simp_all add: separator_def decimal_digit_def decimal_value_def)
  show ?thesis
    using windows11_numeric_qualifier [OF h]
    by (simp add: separator_def decimal_digit_def decimal_value_def)
qed

text \<open>
  Without the exclusion of the named codes it fails: "Windows 11 22H2" has the digit run
  22 followed by a letter and gives build 22621.
\<close>

theorem windows11_numeric_qualifier_counterexample:
  "separator CHR '' '' \<and> decimal_digit (hd ''22H2'')
   \<and> takeWhile decimal_digit ''22H2'' = ''22'' \<and> decimal_value ''22'' = 22
   \<and> dropWhile decimal_digit ''22H2'' = ''H2'' \<and> \<not> separator CHR ''H''
   \<and> parseWindowsVersion (''Windows 11'' @ CHR '' '' # ''22H2'') = Inr (10, 0, 22621)
   \<and> (10, 0, 22621) \<noteq> (10, 0, 22 :: DWORD)"
  by (simp add: parse_defs separator_def decimal_digit_def decimal_value_def)

end
